theory Spec2Isabelle
  imports Main "HOL-Library.AList"
begin

text \<open>
  The icon theme generation of the Icon Preview extension (\<open>src/extension.ts\<close>):
  discovery of the image files, one thumbnail per file, assembly of the theme descriptor
  and its write to disk, and the debounced regeneration that file, settings and
  workspace events trigger. The file exists in two revisions, which differ in the
  descriptor they build: one adds default icons and a \<open>fileExtensions\<close> table, the
  other (\<open>unnamed/part_000\<close>) does not. Both are modelled.
\<close>

section \<open>Strings and the character classes the source uses\<close>

text \<open>
  JavaScript strings are modelled as \<open>string\<close>, a list of characters, each standing
  for the code unit of its number (U+0000 to U+00FF). The source inspects ASCII characters
  (letters, digits, dot, slash, backslash) and lowers the case of file extensions.
\<close>

definition is_upper :: "char \<Rightarrow> bool" where
  "is_upper c = (let n = (of_char c :: nat) in 65 \<le> n \<and> n \<le> 90)"

definition is_lower :: "char \<Rightarrow> bool" where
  "is_lower c = (let n = (of_char c :: nat) in 97 \<le> n \<and> n \<le> 122)"

definition is_digit :: "char \<Rightarrow> bool" where
  "is_digit c = (let n = (of_char c :: nat) in 48 \<le> n \<and> n \<le> 57)"

definition is_alnum :: "char \<Rightarrow> bool" where
  \<comment> \<open>the class \<open>[a-zA-Z0-9]\<close>\<close>
  "is_alnum c = (is_lower c \<or> is_upper c \<or> is_digit c)"

definition lowers :: "char \<Rightarrow> bool" where
  \<comment> \<open>the code units below U+0100 that \<open>toLowerCase\<close> changes: \<open>A\<close> to \<open>Z\<close>, and
      U+00C0 to U+00DE without the multiplication sign U+00D7\<close>
  "lowers c = (let n = (of_char c :: nat) in is_upper c \<or> (192 \<le> n \<and> n \<le> 222 \<and> n \<noteq> 215))"

definition toLowerCase :: "string \<Rightarrow> string" where
  \<comment> \<open>\<open>String.prototype.toLowerCase\<close>, a character being the code unit of its number:
      each of the letters above has its lower-case form 32 places further\<close>
  "toLowerCase s = map (\<lambda>c. if lowers c then char_of (of_char c + (32::nat)) else c) s"

definition split_on :: "char \<Rightarrow> string \<Rightarrow> string list" where
  \<comment> \<open>\<open>s.split(c)\<close>: the pieces between the occurrences of \<open>c\<close> (never an empty list)\<close>
  "split_on c s = foldr (\<lambda>x acc. if x = c then [] # acc else (x # hd acc) # tl acc) s [[]]"

fun join :: "string \<Rightarrow> string list \<Rightarrow> string" where
  \<comment> \<open>\<open>xs.join(sep)\<close>\<close>
  "join sep [] = []"
| "join sep [x] = x"
| "join sep (x # y # ys) = x @ sep @ join sep (y # ys)"

section \<open>Node's \<open>path\<close> module (POSIX flavour)\<close>

text \<open>
  The source calls \<open>path.basename\<close>, \<open>path.extname\<close>, \<open>path.join\<close>,
  \<open>path.dirname\<close> and \<open>path.relative\<close>. They are modelled after Node's
  \<open>path.posix\<close> implementation, with \<open>/\<close> as the only separator.
\<close>

definition path_basename :: "string \<Rightarrow> string" where
  \<comment> \<open>trailing slashes are ignored; the result is the last component\<close>
  "path_basename p =
     (let q = dropWhile (\<lambda>c. c = CHR ''/'') (rev p)
      in rev (takeWhile (\<lambda>c. c \<noteq> CHR ''/'') q))"

definition path_extname :: "string \<Rightarrow> string" where
  \<comment> \<open>from the last dot of the last component; empty when there is no dot, when the
      last dot starts the component, and for the component \<open>..\<close>\<close>
  "path_extname p =
     (let b = path_basename p;
          suf = rev (takeWhile (\<lambda>c. c \<noteq> CHR ''.'') (rev b));
          pre = take (length b - length suf - 1) b
      in if CHR ''.'' \<notin> set b \<or> pre = [] \<or> b = ''..'' then [] else CHR ''.'' # suf)"

definition path_dirname :: "string \<Rightarrow> string" where
  "path_dirname p =
     (if p = [] then ''.''
      else
        let hasRoot = (hd p = CHR ''/'');
            r = dropWhile (\<lambda>c. c = CHR ''/'') (rev (tl p));
            r2 = dropWhile (\<lambda>c. c \<noteq> CHR ''/'') r;
            end = length r2
        in if r2 = [] then (if hasRoot then ''/'' else ''.'')
           else if hasRoot \<and> end = 1 then ''//''
           else take end p)"

definition normalizeString :: "string \<Rightarrow> bool \<Rightarrow> string" where
  \<comment> \<open>drops empty and \<open>.\<close> segments; \<open>..\<close> removes the segment before it, and is kept
      (only when \<open>allowAboveRoot\<close>) where there is none to remove\<close>
  "normalizeString p allowAboveRoot =
     join ''/''
       (foldl (\<lambda>res seg.
                 if seg = [] \<or> seg = ''.'' then res
                 else if seg = ''..'' then
                   (if res \<noteq> [] \<and> last res \<noteq> ''..'' then butlast res
                    else if allowAboveRoot then res @ [''..'']
                    else res)
                 else res @ [seg])
              [] (split_on (CHR ''/'') p))"

definition path_normalize :: "string \<Rightarrow> string" where
  "path_normalize p =
     (if p = [] then ''.''
      else
        let isAbsolute = (hd p = CHR ''/'');
            trailingSeparator = (last p = CHR ''/'');
            q = normalizeString p (\<not> isAbsolute)
        in if q = [] then (if isAbsolute then ''/'' else if trailingSeparator then ''./'' else ''.'')
           else
             let q' = (if trailingSeparator then q @ ''/'' else q)
             in if isAbsolute then CHR ''/'' # q' else q')"

definition path_join :: "string list \<Rightarrow> string" where
  \<comment> \<open>\<open>path.join(...args)\<close>: the non-empty arguments, joined with a slash, normalized\<close>
  "path_join args =
     (let parts = filter (\<lambda>a. a \<noteq> []) args
      in if parts = [] then ''.'' else path_normalize (join ''/'' parts))"

definition path_resolve :: "string \<Rightarrow> string \<Rightarrow> string" where
  \<comment> \<open>\<open>path.resolve(p)\<close> in a process whose working directory is \<open>cwd\<close> (absolute)\<close>
  "path_resolve cwd p =
     (let q = (if p \<noteq> [] \<and> hd p = CHR ''/'' then p else cwd @ ''/'' @ p)
      in CHR ''/'' # normalizeString q False)"

fun drop_common :: "string list \<Rightarrow> string list \<Rightarrow> string list \<times> string list" where
  "drop_common (x # xs) (y # ys) = (if x = y then drop_common xs ys else (x # xs, y # ys))"
| "drop_common xs ys = (xs, ys)"

definition path_relative :: "string \<Rightarrow> string \<Rightarrow> string \<Rightarrow> string" where
  \<comment> \<open>\<open>path.relative(from, to)\<close>: both are resolved, their common leading segments
      dropped, one \<open>..\<close> for each segment left of \<open>from\<close>, then what is left of \<open>to\<close>\<close>
  "path_relative cwd from to =
     (if from = to then []
      else
        let f = filter (\<lambda>s. s \<noteq> []) (split_on (CHR ''/'') (path_resolve cwd from));
            t = filter (\<lambda>s. s \<noteq> []) (split_on (CHR ''/'') (path_resolve cwd to));
            (f', t') = drop_common f t
        in join ''/'' (map (\<lambda>_. ''..'') f' @ t'))"

section \<open>JavaScript objects used as dictionaries\<close>

text \<open>
  \<open>Record<string, V>\<close> built from \<open>{}\<close> by assignments \<open>obj[k] = v\<close>: an association
  list in insertion order. Assigning to a key already present keeps its position; a new
  key goes last. The key \<open>__proto__\<close> is the prototype accessor: assigning a string to
  it creates no property.
\<close>

type_synonym 'v js_object = "(string \<times> 'v) list"

definition js_set :: "'v js_object \<Rightarrow> string \<Rightarrow> 'v \<Rightarrow> 'v js_object" where
  "js_set obj k v = (if k = ''__proto__'' then obj else AList.update k v obj)"

definition object_prototype_keys :: "string list" where
  \<comment> \<open>the properties every \<open>{}\<close> inherits from \<open>Object.prototype\<close> (all truthy)\<close>
  "object_prototype_keys =
     [''constructor'', ''__defineGetter__'', ''__defineSetter__'', ''hasOwnProperty'',
      ''__lookupGetter__'', ''__lookupSetter__'', ''isPrototypeOf'', ''propertyIsEnumerable'',
      ''toString'', ''valueOf'', ''__proto__'', ''toLocaleString'']"

definition js_truthy_at :: "string js_object \<Rightarrow> string \<Rightarrow> bool" where
  \<comment> \<open>\<open>!!obj[k]\<close> for an object of strings: an own non-empty string or an inherited
      property\<close>
  "js_truthy_at obj k =
     (case map_of obj k of Some v \<Rightarrow> v \<noteq> [] | None \<Rightarrow> k \<in> set object_prototype_keys)"

definition int_of_digits :: "string \<Rightarrow> int" where
  "int_of_digits s = foldl (\<lambda>a c. 10 * a + (of_char c - 48)) 0 s"

definition is_array_index :: "string \<Rightarrow> bool" where
  \<comment> \<open>a canonical numeric string below \<open>2^32 - 1\<close>\<close>
  "is_array_index k =
     (k \<noteq> [] \<and> list_all is_digit k \<and> (k = ''0'' \<or> hd k \<noteq> CHR ''0'')
      \<and> int_of_digits k \<le> 4294967294)"

definition js_entries :: "'v js_object \<Rightarrow> (string \<times> 'v) list" where
  \<comment> \<open>the order in which \<open>JSON.stringify\<close> and the spread operator enumerate the own
      properties: array indices in ascending order, then the other keys as inserted\<close>
  "js_entries obj =
     sort_key (\<lambda>e. int_of_digits (fst e)) (filter (\<lambda>e. is_array_index (fst e)) obj)
     @ filter (\<lambda>e. \<not> is_array_index (fst e)) obj"

section \<open>\<open>JSON.stringify(value, null, 2)\<close>\<close>

datatype json = JString string | JObject "(string \<times> json) list"

definition hex_digit :: "nat \<Rightarrow> char" where
  "hex_digit n = (if n < 10 then char_of (48 + n) else char_of (87 + n))"

definition json_escape_char :: "char \<Rightarrow> string" where
  "json_escape_char c =
     (let n = (of_char c :: nat) in
      if c = CHR 0x22 then [CHR 0x5C, CHR 0x22]
      else if c = CHR 0x5C then [CHR 0x5C, CHR 0x5C]
      else if n = 8 then [CHR 0x5C, CHR ''b'']
      else if n = 9 then [CHR 0x5C, CHR ''t'']
      else if n = 10 then [CHR 0x5C, CHR ''n'']
      else if n = 12 then [CHR 0x5C, CHR ''f'']
      else if n = 13 then [CHR 0x5C, CHR ''r'']
      else if n < 32 then [CHR 0x5C, CHR ''u'', CHR ''0'', CHR ''0'', hex_digit (n div 16), hex_digit (n mod 16)]
      else [c])"

definition json_quote :: "string \<Rightarrow> string" where
  "json_quote s = CHR 0x22 # concat (map json_escape_char s) @ [CHR 0x22]"

fun stringify :: "nat \<Rightarrow> json \<Rightarrow> string" where
  "stringify ind (JString s) = json_quote s"
| "stringify ind (JObject kvs) =
     (if kvs = [] then ''{}''
      else ''{'' @ [CHR 0x0A]
           @ join ('','' @ [CHR 0x0A])
               (map (\<lambda>kv. replicate (ind + 2) CHR '' '' @ json_quote (fst kv) @ '': ''
                           @ stringify (ind + 2) (snd kv)) kvs)
           @ [CHR 0x0A] @ replicate ind CHR '' '' @ ''}'')"

definition JSON_stringify :: "json \<Rightarrow> string" where
  "JSON_stringify v = stringify 0 v"

section \<open>Icon identifiers\<close>

text \<open>
  \<^verbatim>\<open>
  function generateIconId(filePath: string): string {
      const normalized = filePath.replace(/[^a-zA-Z0-9]/g, '_');
      return `img_${normalized}`;
  }
  \<close>
\<close>

definition generateIconId :: "string \<Rightarrow> string" where
  "generateIconId filePath =
     (let normalized = map (\<lambda>c. if is_alnum c then c else CHR ''_'') filePath
      in ''img_'' @ normalized)"

section \<open>Configuration\<close>

text \<open>
  The settings under \<open>tlcsdm.iconpreview\<close>; \<open>None\<close> is a setting with no value, for
  which \<open>config.get(key, default)\<close> returns the default. The icon size is a JavaScript
  number; the model keeps the integers.
\<close>

record config =
  cfg_supportedExtensions :: "string list option"
  cfg_iconSize :: "int option"
  cfg_autoActivate :: "bool option"

definition getSupportedExtensions :: "config \<Rightarrow> string list" where
  "getSupportedExtensions c =
     (case cfg_supportedExtensions c of
        Some v \<Rightarrow> v
      | None \<Rightarrow> [''png'', ''jpg'', ''jpeg'', ''gif'', ''bmp'', ''ico'', ''svg'', ''webp''])"

definition getIconSize :: "config \<Rightarrow> int" where
  "getIconSize c = (case cfg_iconSize c of Some v \<Rightarrow> v | None \<Rightarrow> 16)"

definition isAutoActivateEnabled :: "config \<Rightarrow> bool" where
  "isAutoActivateEnabled c = (case cfg_autoActivate c of Some v \<Rightarrow> v | None \<Rightarrow> True)"

section \<open>The host, the disk and the image library\<close>

text \<open>
  What a regeneration cycle reads from outside the extension is a parameter of the model:
  the configuration, the answer of \<open>vscode.workspace.findFiles\<close> (\<open>None\<close>: the call
  rejects), what \<open>sharp\<close> produces for a source image, a size and an output path
  (\<open>None\<close>: it throws), whether \<open>fs.mkdirSync\<close> throws, and how the write of the
  descriptor ends.

  \<open>fs.writeFileSync(path, data)\<close> opens the file for writing, which truncates it, then
  writes the data, then closes it. A failure at the open leaves the file as it was; a
  failure after \<open>n\<close> bytes leaves those \<open>n\<close> bytes.
\<close>

datatype write_outcome = WriteCompletes | WriteFailsAtOpen | WriteFailsAfter nat

record host =
  configuration :: config
  findFiles :: "string \<Rightarrow> string \<Rightarrow> string list option"
  sharp_resize :: "string \<Rightarrow> int \<Rightarrow> string \<Rightarrow> string option"
  sharp_create :: "int \<Rightarrow> nat \<times> nat \<times> nat \<Rightarrow> string \<Rightarrow> string option"
  mkdirSync_throws :: bool
  writeFileSync_outcome :: write_outcome
  cwd :: string
  glob_match :: "string \<Rightarrow> string \<Rightarrow> bool"
    \<comment> \<open>whether the host takes a path to match a glob pattern, when it reports file
        events to a watcher\<close>

datatype sharp_call =
    Resize string int string  \<comment> \<open>source image, size, output file\<close>
  | Create int string  \<comment> \<open>size, output file\<close>

record world =
  files :: "string \<rightharpoonup> string"
  dirs :: "string set"
  sharp_calls :: "sharp_call list"

datatype error = MkdirSyncError | WriteFileSyncError

definition existsSync :: "world \<Rightarrow> string \<Rightarrow> bool" where
  "existsSync w p = (files w p \<noteq> None \<or> p \<in> dirs w)"

fun ancestors :: "nat \<Rightarrow> string \<Rightarrow> string list" where
  \<comment> \<open>a path and the directories above it, \<open>n\<close> levels up\<close>
  "ancestors 0 p = [p]"
| "ancestors (Suc n) p = p # ancestors n (path_dirname p)"

definition mkdirSync :: "world \<Rightarrow> string \<Rightarrow> world" where
  \<comment> \<open>\<open>{ recursive: true }\<close>: the directory and the directories above it\<close>
  "mkdirSync w p = w\<lparr>dirs := dirs w \<union> set (ancestors (length p) p)\<rparr>"

definition writeFileSync :: "write_outcome \<Rightarrow> string \<Rightarrow> string \<Rightarrow> world \<Rightarrow> world \<times> bool" where
  \<comment> \<open>the second component: the call returned (\<open>False\<close>: it threw)\<close>
  "writeFileSync outcome p content w =
     (case outcome of
        WriteCompletes \<Rightarrow> (w\<lparr>files := (files w)(p \<mapsto> content)\<rparr>, True)
      | WriteFailsAtOpen \<Rightarrow> (w, False)
      | WriteFailsAfter n \<Rightarrow> (w\<lparr>files := (files w)(p \<mapsto> take n content)\<rparr>, False))"

section \<open>The extension's module state\<close>

record globals =
  iconThemePath :: string
  outputIconsDir :: string

section \<open>Discovery and thumbnails\<close>

definition glob_pattern :: "string list \<Rightarrow> string" where
  \<comment> \<open>\<^verbatim>\<open>`**/*.{${extensions.join(',')}}`\<close>\<close>
  "glob_pattern extensions = ''**/*.{'' @ join '','' extensions @ ''}''"

definition findImageFiles :: "host \<Rightarrow> string list" where
  "findImageFiles h =
     (let extensions = getSupportedExtensions (configuration h);
          pattern = glob_pattern extensions
      in case findFiles h pattern ''**/node_modules/**'' of
           Some uris \<Rightarrow> uris
         | None \<Rightarrow> [])"

definition generateThumbnail :: "host \<Rightarrow> string \<Rightarrow> string \<Rightarrow> world \<Rightarrow> bool \<times> world" where
  \<comment> \<open>a throw of \<open>sharp\<close> is caught: the result is \<open>false\<close> and no file is written\<close>
  "generateThumbnail h imagePath outputPath w =
     (let iconSize = getIconSize (configuration h);
          w1 = w\<lparr>sharp_calls := sharp_calls w @ [Resize imagePath iconSize outputPath]\<rparr>
      in case sharp_resize h imagePath iconSize outputPath of
           Some png \<Rightarrow> (True, w1\<lparr>files := (files w1)(outputPath \<mapsto> png)\<rparr>)
         | None \<Rightarrow> (False, w1))"

section \<open>The regeneration cycle\<close>

record icon_maps =
  iconDefinitions :: "string js_object"  \<comment> \<open>icon id to \<open>iconPath\<close>\<close>
  fileNames :: "string js_object"  \<comment> \<open>file name to icon id\<close>

record icon_theme = icon_maps +
  theme_file :: string  \<comment> \<open>the property \<open>file\<close>\<close>
  theme_folder :: string  \<comment> \<open>the property \<open>folder\<close>\<close>
  theme_folderExpanded :: string  \<comment> \<open>the property \<open>folderExpanded\<close>\<close>
  fileExtensions :: "string js_object"

definition file_ext :: "string \<Rightarrow> string" where
  \<comment> \<open>\<open>path.extname(filePath).toLowerCase().slice(1)\<close>\<close>
  "file_ext filePath = drop 1 (toLowerCase (path_extname filePath))"

definition thumbnailPath_of :: "globals \<Rightarrow> string \<Rightarrow> string" where
  \<comment> \<open>\<^verbatim>\<open>path.join(outputIconsDir, `${iconId}.png`)\<close>\<close>
  "thumbnailPath_of g iconId = path_join [outputIconsDir g, iconId @ ''.png'']"

definition relativePath_of :: "host \<Rightarrow> globals \<Rightarrow> string \<Rightarrow> string" where
  \<comment> \<open>\<open>path.relative(path.dirname(iconThemePath), thumbnailPath).replace(/\\/g, '/')\<close>\<close>
  "relativePath_of h g thumbnailPath =
     map (\<lambda>c. if c = CHR 0x5C then CHR ''/'' else c)
       (path_relative (cwd h) (path_dirname (iconThemePath g)) thumbnailPath)"

text \<open>
  The loop \<open>for (const imageUri of imageFiles)\<close> of \<open>generateIconTheme\<close>, the same
  in both revisions of the file: the files are taken in the order \<open>findFiles\<close> gave
  them.
\<close>

fun processImageFiles ::
  "host \<Rightarrow> globals \<Rightarrow> string list \<Rightarrow> string list \<Rightarrow> icon_maps \<times> world \<Rightarrow> icon_maps \<times> world"
where
  "processImageFiles h g supportedExtensions [] (m, w) = (m, w)"
| "processImageFiles h g supportedExtensions (filePath # rest) (m, w) =
     (let fileName = path_basename filePath;
          ext = file_ext filePath
      in if ext \<notin> set supportedExtensions
         then processImageFiles h g supportedExtensions rest (m, w)
         else
           let iconId = generateIconId filePath;
               thumbnailPath = thumbnailPath_of g iconId;
               (success, w') = generateThumbnail h filePath thumbnailPath w
           in if success
              then
                let relativePath = relativePath_of h g thumbnailPath
                in processImageFiles h g supportedExtensions rest
                     (m\<lparr>iconDefinitions := js_set (iconDefinitions m) iconId relativePath,
                        fileNames := js_set (fileNames m) fileName iconId\<rparr>, w')
              else processImageFiles h g supportedExtensions rest (m, w'))"

definition default_fileExtensions :: "string list \<Rightarrow> string js_object" where
  \<comment> \<open>\<open>for (const ext of supportedExtensions) if (!fileExtensions[ext]) fileExtensions[ext] = '_file'\<close>\<close>
  "default_fileExtensions supportedExtensions =
     foldl (\<lambda>fe ext. if \<not> js_truthy_at fe ext then js_set fe ext ''_file'' else fe)
       [] supportedExtensions"

definition spread_defaults :: "string js_object \<Rightarrow> string js_object" where
  \<comment> \<open>\<open>{ '_file': ..., '_folder': ..., '_folder_open': ..., ...iconDefinitions }\<close>\<close>
  "spread_defaults defs =
     foldl (\<lambda>obj e. AList.update (fst e) (snd e) obj)
       [(''_file'', ''./default-file.png''),
        (''_folder'', ''./default-folder.png''),
        (''_folder_open'', ''./default-folder-open.png'')]
       (js_entries defs)"

definition json_of_strings :: "string js_object \<Rightarrow> json" where
  "json_of_strings obj = JObject (map (\<lambda>e. (fst e, JString (snd e))) (js_entries obj))"

definition json_of_definitions :: "string js_object \<Rightarrow> json" where
  "json_of_definitions obj =
     JObject (map (\<lambda>e. (fst e, JObject [(''iconPath'', JString (snd e))])) (js_entries obj))"

definition json_of_icon_theme :: "icon_theme \<Rightarrow> json" where
  "json_of_icon_theme t =
     JObject
       [(''iconDefinitions'', json_of_definitions (iconDefinitions t)),
        (''file'', JString (theme_file t)),
        (''folder'', JString (theme_folder t)),
        (''folderExpanded'', JString (theme_folderExpanded t)),
        (''fileExtensions'', json_of_strings (fileExtensions t)),
        (''fileNames'', json_of_strings (fileNames t))]"

definition json_of_icon_maps :: "icon_maps \<Rightarrow> json" where
  "json_of_icon_maps t =
     JObject
       [(''iconDefinitions'', json_of_definitions (iconDefinitions t)),
        (''fileNames'', json_of_strings (fileNames t))]"

definition default_icon_files :: "globals \<Rightarrow> (string \<times> (nat \<times> nat \<times> nat)) list" where
  "default_icon_files g =
     [(path_join [outputIconsDir g, ''default-file.png''], (180, 180, 180)),
      (path_join [outputIconsDir g, ''default-folder.png''], (220, 180, 80)),
      (path_join [outputIconsDir g, ''default-folder-open.png''], (240, 200, 100))]"

definition createDefaultIcon :: "host \<Rightarrow> world \<Rightarrow> string \<times> (nat \<times> nat \<times> nat) \<Rightarrow> world" where
  \<comment> \<open>\<open>if (!fs.existsSync(p)) { try { await sharp({create}).png().toFile(p) } catch { } }\<close>\<close>
  "createDefaultIcon h w pc =
     (let iconSize = getIconSize (configuration h); p = fst pc
      in if existsSync w p then w
         else
           let w1 = w\<lparr>sharp_calls := sharp_calls w @ [Create iconSize p]\<rparr>
           in case sharp_create h iconSize (snd pc) p of
                Some png \<Rightarrow> w1\<lparr>files := (files w1)(p \<mapsto> png)\<rparr>
              | None \<Rightarrow> w1)"

definition createDefaultIcons :: "host \<Rightarrow> globals \<Rightarrow> world \<Rightarrow> world" where
  "createDefaultIcons h g w = foldl (createDefaultIcon h) w (default_icon_files g)"

definition ensure_output_dir :: "host \<Rightarrow> globals \<Rightarrow> world \<Rightarrow> error + world" where
  \<comment> \<open>\<open>if (!fs.existsSync(outputIconsDir)) fs.mkdirSync(outputIconsDir, { recursive: true })\<close>\<close>
  "ensure_output_dir h g w =
     (if \<not> existsSync w (outputIconsDir g)
      then (if mkdirSync_throws h then Inl MkdirSyncError else Inr (mkdirSync w (outputIconsDir g)))
      else Inr w)"

definition assemble :: "host \<Rightarrow> globals \<Rightarrow> world \<Rightarrow> icon_maps \<times> world" where
  \<comment> \<open>discovery and the loop, from empty \<open>iconDefinitions\<close> and \<open>fileNames\<close>\<close>
  "assemble h g w =
     processImageFiles h g (getSupportedExtensions (configuration h)) (findImageFiles h)
       (\<lparr>iconDefinitions = [], fileNames = []\<rparr>, w)"

definition iconTheme_of :: "host \<Rightarrow> icon_maps \<Rightarrow> icon_theme" where
  \<comment> \<open>the object literal \<open>iconTheme\<close> of \<open>src/extension.ts\<close>\<close>
  "iconTheme_of h m =
     \<lparr>iconDefinitions = spread_defaults (iconDefinitions m),
      fileNames = fileNames m,
      theme_file = ''_file'',
      theme_folder = ''_folder'',
      theme_folderExpanded = ''_folder_open'',
      fileExtensions = default_fileExtensions (getSupportedExtensions (configuration h))\<rparr>"

text \<open>
  \<open>generateIconTheme\<close> of \<open>src/extension.ts\<close>, in two parts: \<open>writeIconTheme\<close> runs
  the function through \<open>fs.writeFileSync(iconThemePath, ...)\<close>, the point at which the
  descriptor is on disk, and \<open>generateIconTheme\<close> adds the call of
  \<open>createDefaultIcons\<close> that follows it. A throw of \<open>mkdirSync\<close> or \<open>writeFileSync\<close>
  is not caught: it ends the cycle with the disk as it is then.
\<close>

definition writeIconTheme :: "host \<Rightarrow> globals \<Rightarrow> world \<Rightarrow> world \<times> (error + icon_theme)" where
  "writeIconTheme h g w =
     (case ensure_output_dir h g w of
        Inl e \<Rightarrow> (w, Inl e)
      | Inr w1 \<Rightarrow>
          let (m, w2) = assemble h g w1;
              iconTheme = iconTheme_of h m;
              (w3, written) =
                writeFileSync (writeFileSync_outcome h) (iconThemePath g)
                  (JSON_stringify (json_of_icon_theme iconTheme)) w2
          in if written then (w3, Inr iconTheme) else (w3, Inl WriteFileSyncError))"

definition generateIconTheme :: "host \<Rightarrow> globals \<Rightarrow> world \<Rightarrow> world \<times> (error + icon_theme)" where
  "generateIconTheme h g w =
     (case writeIconTheme h g w of
        (w3, Inl e) \<Rightarrow> (w3, Inl e)
      | (w3, Inr iconTheme) \<Rightarrow> (createDefaultIcons h g w3, Inr iconTheme))"

text \<open>
  \<open>generateIconTheme\<close> of the other revision of the file (\<open>unnamed/part_000\<close>): the
  descriptor holds \<open>iconDefinitions\<close> and \<open>fileNames\<close> only, and no default icon is
  created.
\<close>

definition generateIconTheme_part000 :: "host \<Rightarrow> globals \<Rightarrow> world \<Rightarrow> world \<times> (error + icon_maps)" where
  "generateIconTheme_part000 h g w =
     (case ensure_output_dir h g w of
        Inl e \<Rightarrow> (w, Inl e)
      | Inr w1 \<Rightarrow>
          let (m, w2) = assemble h g w1;
              (w3, written) =
                writeFileSync (writeFileSync_outcome h) (iconThemePath g)
                  (JSON_stringify (json_of_icon_maps m)) w2
          in if written then (w3, Inr m) else (w3, Inl WriteFileSyncError))"

section \<open>Timers, events and the handlers that \<open>activate\<close> registers\<close>

text \<open>
  The extension runs on one thread: a handler runs to its first \<open>await\<close>, and other
  handlers may run while an asynchronous function is suspended. The state below is what
  the handlers share. Time is in milliseconds. \<open>timers\<close> holds the pending timeouts
  (handle and due time); every timeout of this extension has the same callback, which
  calls \<open>generateIconTheme\<close>. \<open>started\<close> lists the times at which
  \<open>generateIconTheme\<close> was called, and \<open>in_flight\<close> counts the calls that have not
  completed yet. The body of a cycle is the function \<open>generateIconTheme\<close> above; here
  only its start and its completion are events.
\<close>

record watcher =
  globPattern :: string  \<comment> \<open>the glob pattern the watcher was created with\<close>
  fires_on :: "string \<Rightarrow> bool"  \<comment> \<open>the paths whose events the host reports to the watcher\<close>

definition createFileSystemWatcher :: "(string \<Rightarrow> string \<Rightarrow> bool) \<Rightarrow> string \<Rightarrow> watcher" where
  \<comment> \<open>\<open>vscode.workspace.createFileSystemWatcher(pattern)\<close>: the host reports to the
      watcher the events on the paths that its glob matcher, a parameter here, takes to
      match the pattern\<close>
  "createFileSystemWatcher glob pattern = \<lparr>globPattern = pattern, fires_on = glob pattern\<rparr>"

record ext_state =
  now :: nat
  settings :: config
  fileWatcher :: "watcher option"
  regenerateTimer :: "nat option"
  timers :: "(nat \<times> nat) list"
  next_handle :: nat
  in_flight :: nat
  started :: "nat list"
  workbench_iconTheme :: "string option"

definition clearTimeout :: "nat \<Rightarrow> ext_state \<Rightarrow> ext_state" where
  \<comment> \<open>no effect on a timeout that has fired already\<close>
  "clearTimeout t s = s\<lparr>timers := filter (\<lambda>x. fst x \<noteq> t) (timers s)\<rparr>"

definition setTimeout :: "nat \<Rightarrow> ext_state \<Rightarrow> nat \<times> ext_state" where
  "setTimeout delay s =
     (next_handle s,
      s\<lparr>timers := timers s @ [(next_handle s, now s + delay)],
        next_handle := next_handle s + 1\<rparr>)"

definition scheduleIconRegeneration :: "ext_state \<Rightarrow> ext_state" where
  "scheduleIconRegeneration s =
     (let s1 = (case regenerateTimer s of Some t \<Rightarrow> clearTimeout t s | None \<Rightarrow> s);
          (t, s2) = setTimeout 500 s1
      in s2\<lparr>regenerateTimer := Some t\<rparr>)"

definition call_generateIconTheme :: "ext_state \<Rightarrow> ext_state" where
  \<comment> \<open>a call of \<open>generateIconTheme()\<close>: nothing in the callers or in the function looks
      at a cycle that may be running\<close>
  "call_generateIconTheme s = s\<lparr>in_flight := in_flight s + 1, started := started s @ [now s]\<rparr>"

definition advance :: "nat \<Rightarrow> ext_state \<Rightarrow> ext_state" where
  \<comment> \<open>the clock reaches \<open>t\<close>: the timeouts due by then fire, in the order they are due\<close>
  "advance t s =
     (let due = sort_key snd (filter (\<lambda>x. snd x \<le> t) (timers s));
          s1 = s\<lparr>timers := filter (\<lambda>x. \<not> snd x \<le> t) (timers s)\<rparr>;
          s2 = foldl (\<lambda>s x. call_generateIconTheme (s\<lparr>now := max (now s) (snd x)\<rparr>)) s1 due
      in s2\<lparr>now := max (now s2) t\<rparr>)"

definition activateIconTheme :: "ext_state \<Rightarrow> ext_state" where
  "activateIconTheme s = s\<lparr>workbench_iconTheme := Some ''iconpreview''\<rparr>"

definition watcher_fires :: "ext_state \<Rightarrow> string \<Rightarrow> bool" where
  \<comment> \<open>the host calls the callbacks \<open>onDidCreate\<close>, \<open>onDidDelete\<close> and \<open>onDidChange\<close> of
      the watcher for the paths it reports to it\<close>
  "watcher_fires s p = (case fileWatcher s of Some wt \<Rightarrow> fires_on wt p | None \<Rightarrow> False)"

datatype event =
    FileCreated string
  | FileDeleted string
  | FileChanged string
  | ConfigurationChanged "config option"
      \<comment> \<open>\<open>Some c\<close>: the settings under \<open>tlcsdm.iconpreview\<close> are now \<open>c\<close>;
          \<open>None\<close>: a change that does not affect them\<close>
  | WorkspaceFoldersChanged
  | RefreshCommand
  | ActivateCommand
  | CycleCompleted

fun handle :: "event \<Rightarrow> ext_state \<Rightarrow> ext_state" where
  "handle (FileCreated p) s = (if watcher_fires s p then scheduleIconRegeneration s else s)"
| "handle (FileDeleted p) s = (if watcher_fires s p then scheduleIconRegeneration s else s)"
| "handle (FileChanged p) s = (if watcher_fires s p then scheduleIconRegeneration s else s)"
| "handle (ConfigurationChanged (Some c)) s = scheduleIconRegeneration (s\<lparr>settings := c\<rparr>)"
| "handle (ConfigurationChanged None) s = s"
| "handle WorkspaceFoldersChanged s = scheduleIconRegeneration s"
| "handle RefreshCommand s = call_generateIconTheme s"
| "handle ActivateCommand s = activateIconTheme s"
| "handle CycleCompleted s = (if 0 < in_flight s then s\<lparr>in_flight := in_flight s - 1\<rparr> else s)"

fun run :: "ext_state \<Rightarrow> (nat \<times> event) list \<Rightarrow> ext_state" where
  \<comment> \<open>events with their arrival times; a timeout due at the arrival time of an event
      fires before the event is handled\<close>
  "run s [] = s"
| "run s (te # evs) = run (handle (snd te) (advance (fst te) s)) evs"

definition register_handlers :: "(string \<Rightarrow> string \<Rightarrow> bool) \<Rightarrow> config \<Rightarrow> nat \<Rightarrow> ext_state" where
  \<comment> \<open>the second half of \<open>activate\<close>, at time \<open>t\<close>: the theme is selected when
      \<open>autoActivate\<close> is on, the commands are registered, the watcher is created with the
      pattern of the extensions configured at that moment; \<open>glob\<close> is the glob matcher
      of the host\<close>
  "register_handlers glob c t =
     (let s0 = \<lparr>now = t, settings = c, fileWatcher = None, regenerateTimer = None,
                timers = [], next_handle = 0, in_flight = 0, started = [],
                workbench_iconTheme = None\<rparr>;
          s1 = (if isAutoActivateEnabled c then activateIconTheme s0 else s0);
          extensions = getSupportedExtensions c;
          pattern = glob_pattern extensions
      in s1\<lparr>fileWatcher := Some (createFileSystemWatcher glob pattern)\<rparr>)"

definition activate_globals :: "string \<Rightarrow> globals" where
  "activate_globals extensionPath =
     (let dir = path_join [extensionPath, ''out'', ''icons'']
      in \<lparr>iconThemePath = path_join [dir, ''iconpreview-icon-theme.json''],
          outputIconsDir = dir\<rparr>)"

definition activate :: "host \<Rightarrow> string \<Rightarrow> nat \<Rightarrow> world \<Rightarrow> error + globals \<times> world \<times> ext_state" where
  "activate h extensionPath t w =
     (let g = activate_globals extensionPath
      in case ensure_output_dir h g w of
           Inl e \<Rightarrow> Inl e
         | Inr w1 \<Rightarrow>
             (case generateIconTheme h g w1 of
                (w2, Inl e) \<Rightarrow> Inl e
              | (w2, Inr iconTheme) \<Rightarrow> Inr (g, w2, register_handlers (glob_match h) (configuration h) t)))"

definition deactivate :: "ext_state \<Rightarrow> ext_state" where
  "deactivate s =
     (let s1 = (case regenerateTimer s of Some t \<Rightarrow> clearTimeout t s | None \<Rightarrow> s)
      in s1\<lparr>fileWatcher := None\<rparr>)"

section \<open>Notions used in the statements\<close>

definition renders :: "host \<Rightarrow> globals \<Rightarrow> string list \<Rightarrow> string \<Rightarrow> bool" where
  \<comment> \<open>the file passes the extension check of the loop and \<open>generateThumbnail\<close> returns
      \<open>true\<close> for it\<close>
  "renders h g exts filePath =
     (file_ext filePath \<in> set exts \<and>
      sharp_resize h filePath (getIconSize (configuration h))
        (thumbnailPath_of g (generateIconId filePath)) \<noteq> None)"

definition record_icon :: "host \<Rightarrow> globals \<Rightarrow> string list \<Rightarrow> icon_maps \<Rightarrow> string \<Rightarrow> icon_maps" where
  \<comment> \<open>what one round of the loop does to \<open>iconDefinitions\<close> and \<open>fileNames\<close>\<close>
  "record_icon h g exts m p =
     (if renders h g exts p
      then m\<lparr>iconDefinitions :=
               js_set (iconDefinitions m) (generateIconId p)
                 (relativePath_of h g (thumbnailPath_of g (generateIconId p))),
             fileNames := js_set (fileNames m) (path_basename p) (generateIconId p)\<rparr>
      else m)"

definition render_file :: "host \<Rightarrow> globals \<Rightarrow> string list \<Rightarrow> world \<Rightarrow> string \<Rightarrow> world" where
  \<comment> \<open>what one round of the loop does to the disk\<close>
  "render_file h g exts w p =
     (if file_ext p \<in> set exts
      then snd (generateThumbnail h p (thumbnailPath_of g (generateIconId p)) w)
      else w)"

definition rendered_files :: "host \<Rightarrow> globals \<Rightarrow> string set" where
  \<comment> \<open>the discovered files of a cycle that get a thumbnail\<close>
  "rendered_files h g =
     {p \<in> set (findImageFiles h). renders h g (getSupportedExtensions (configuration h)) p}"

definition thumbnail_paths :: "host \<Rightarrow> globals \<Rightarrow> string set" where
  \<comment> \<open>the thumbnail files a cycle writes\<close>
  "thumbnail_paths h g = (\<lambda>p. thumbnailPath_of g (generateIconId p)) ` rendered_files h g"

definition run_cycles :: "globals \<Rightarrow> host list \<Rightarrow> world \<Rightarrow> world" where
  \<comment> \<open>cycles of \<open>src/extension.ts\<close> one after the other, each with the workspace and
      settings of its time\<close>
  "run_cycles g hs w = foldl (\<lambda>w h. fst (generateIconTheme h g w)) w hs"

definition run_cycles_part000 :: "globals \<Rightarrow> host list \<Rightarrow> world \<Rightarrow> world" where
  "run_cycles_part000 g hs w = foldl (\<lambda>w h. fst (generateIconTheme_part000 h g w)) w hs"

definition default_keys :: "string set" where
  "default_keys = {''_file'', ''_folder'', ''_folder_open''}"

definition call_size :: "sharp_call \<Rightarrow> int" where
  "call_size c = (case c of Resize src n out \<Rightarrow> n | Create n out \<Rightarrow> n)"

definition notifies :: "ext_state \<Rightarrow> event \<Rightarrow> bool" where
  \<comment> \<open>the events whose handler calls \<open>scheduleIconRegeneration\<close>\<close>
  "notifies s e =
     (case e of
        FileCreated p \<Rightarrow> watcher_fires s p
      | FileDeleted p \<Rightarrow> watcher_fires s p
      | FileChanged p \<Rightarrow> watcher_fires s p
      | ConfigurationChanged c \<Rightarrow> c \<noteq> None
      | WorkspaceFoldersChanged \<Rightarrow> True
      | _ \<Rightarrow> False)"

definition with_settings :: "event \<Rightarrow> ext_state \<Rightarrow> ext_state" where
  \<comment> \<open>the state with the settings that the event brings, if it brings any\<close>
  "with_settings e s = (case e of ConfigurationChanged (Some c) \<Rightarrow> s\<lparr>settings := c\<rparr> | _ \<Rightarrow> s)"

definition tidy :: "ext_state \<Rightarrow> bool" where
  \<comment> \<open>at most one timeout is pending, the one \<open>regenerateTimer\<close> refers to, and no
      handle in use is one that \<open>setTimeout\<close> will give out later\<close>
  "tidy s =
     ((case timers s of
         [] \<Rightarrow> True
       | x # xs \<Rightarrow> xs = [] \<and> regenerateTimer s = Some (fst x) \<and> now s \<le> snd x)
      \<and> (case regenerateTimer s of Some r \<Rightarrow> r < next_handle s | None \<Rightarrow> True))"

definition timer_due :: "ext_state \<Rightarrow> nat option" where
  \<comment> \<open>when the pending timeout, if any, is due\<close>
  "timer_due s = (case timers s of [] \<Rightarrow> None | x # xs \<Rightarrow> Some (snd x))"

fun debounce :: "nat option \<Rightarrow> nat list \<Rightarrow> nat list \<times> nat option" where
  \<comment> \<open>from the due time of the pending timeout and the arrival times of notifications:
      the times at which the timeout fires before or at a notification, and the due time
      of the timeout pending after the last one\<close>
  "debounce d [] = ([], d)"
| "debounce d (t # ts) =
     ((case d of Some x \<Rightarrow> (if x \<le> t then [x] else []) | None \<Rightarrow> [])
        @ fst (debounce (Some (t + 500)) ts),
      snd (debounce (Some (t + 500)) ts))"

section \<open>Example inputs\<close>

text \<open>
  A glob matcher for the examples. It is meant for the patterns \<open>**/*.{a,b,c}\<close> whose
  alternatives hold none of the characters that a glob pattern reads as an operator
  (\<open>*\<close>, \<open>?\<close>, brackets, braces, the slash): there each alternative stands for
  itself, and a path matches when its last component ends with a dot and one of the
  alternatives. No general statement below depends on it.
\<close>

definition brace_alternatives :: "string \<Rightarrow> string list" where
  \<comment> \<open>the alternatives of a pattern \<open>**/*.{a,b,c}\<close>\<close>
  "brace_alternatives pattern = split_on (CHR '','') (butlast (drop 6 pattern))"

definition ends_with :: "string \<Rightarrow> string \<Rightarrow> bool" where
  "ends_with s suf = (length suf \<le> length s \<and> drop (length s - length suf) s = suf)"

definition literal_glob :: "string \<Rightarrow> string \<Rightarrow> bool" where
  "literal_glob pattern p =
     list_ex (\<lambda>alt. ends_with (path_basename p) (CHR ''.'' # alt)) (brace_alternatives pattern)"

definition example_config :: config where
  "example_config = \<lparr>cfg_supportedExtensions = None, cfg_iconSize = None, cfg_autoActivate = None\<rparr>"

definition example_host :: "string list \<Rightarrow> host" where
  \<comment> \<open>default settings; discovery answers \<open>found\<close>; every render succeeds\<close>
  "example_host found =
     \<lparr>configuration = example_config,
      findFiles = (\<lambda>pattern exclude. Some found),
      sharp_resize = (\<lambda>src n out. Some ''PNG''),
      sharp_create = (\<lambda>n colour out. Some ''PNG''),
      mkdirSync_throws = False,
      writeFileSync_outcome = WriteCompletes,
      cwd = ''/'',
      glob_match = literal_glob\<rparr>"

definition example_host_sized :: "int \<Rightarrow> string list \<Rightarrow> host" where
  \<comment> \<open>the same with the setting \<open>iconSize\<close> at \<open>n\<close>\<close>
  "example_host_sized n found =
     (example_host found)\<lparr>configuration := example_config\<lparr>cfg_iconSize := Some n\<rparr>\<rparr>"

definition example_host_write :: "write_outcome \<Rightarrow> string list \<Rightarrow> host" where
  \<comment> \<open>the same with the write of the descriptor ending as given\<close>
  "example_host_write outcome found = (example_host found)\<lparr>writeFileSync_outcome := outcome\<rparr>"

definition example_globals :: globals where
  "example_globals = activate_globals ''/e''"

definition empty_world :: world where
  "empty_world = \<lparr>files = Map.empty, dirs = {}, sharp_calls = []\<rparr>"

definition old_descriptor_world :: world where
  \<comment> \<open>a disk that holds a descriptor and a thumbnail written earlier\<close>
  "old_descriptor_world =
     \<lparr>files = [''/e/out/icons/iconpreview-icon-theme.json'' \<mapsto> ''{}'',
               ''/e/out/icons/img__w_old_png.png'' \<mapsto> ''OLD''],
      dirs = {''/e/out/icons''}, sharp_calls = []\<rparr>"

section \<open>The loop of the cycle, round by round\<close>

lemma record_icon_True:
  "renders h g exts p \<Longrightarrow>
   record_icon h g exts m p =
     m\<lparr>iconDefinitions :=
         js_set (iconDefinitions m) (generateIconId p)
           (relativePath_of h g (thumbnailPath_of g (generateIconId p))),
       fileNames := js_set (fileNames m) (path_basename p) (generateIconId p)\<rparr>"
  by (simp add: record_icon_def)

lemma record_icon_False: "\<not> renders h g exts p \<Longrightarrow> record_icon h g exts m p = m"
  by (simp add: record_icon_def)

lemma fst_processImageFiles:
  "fst (processImageFiles h g exts fs (m, w)) = foldl (record_icon h g exts) m fs"
  by (induction fs arbitrary: m w)
     (auto simp: record_icon_def renders_def generateThumbnail_def Let_def split: option.splits)

lemma generateIconId_not_proto: "generateIconId p \<noteq> ''__proto__''"
  by (simp add: generateIconId_def)

lemma js_set_iconId:
  "js_set obj (generateIconId p) v = AList.update (generateIconId p) v obj"
  by (simp add: js_set_def generateIconId_not_proto)

lemma iconDefinitions_map_of:
  "map_of (iconDefinitions (foldl (record_icon h g exts) m fs)) k =
     (if \<exists>p\<in>set fs. renders h g exts p \<and> generateIconId p = k
      then Some (relativePath_of h g (thumbnailPath_of g k))
      else map_of (iconDefinitions m) k)"
  by (induction fs rule: rev_induct)
     (auto simp: record_icon_def js_set_iconId update_conv')

lemma iconDefinitions_keys:
  "fst ` set (iconDefinitions (foldl (record_icon h g exts) m fs)) =
     fst ` set (iconDefinitions m) \<union> generateIconId ` {p \<in> set fs. renders h g exts p}"
  by (induction fs rule: rev_induct)
     (auto simp: record_icon_def js_set_iconId dom_update)


lemma js_set_keys: "fst ` set obj \<subseteq> fst ` set (js_set obj k v)"
  by (auto simp: js_set_def dom_update)





lemma snd_processImageFiles:
  "snd (processImageFiles h g exts fs (m, w)) = foldl (render_file h g exts) w fs"
  by (induction fs arbitrary: m w)
     (auto simp: render_file_def generateThumbnail_def Let_def split: option.splits)

lemma render_file_files:
  "files (render_file h g exts w p) =
     (if renders h g exts p
      then (files w)(thumbnailPath_of g (generateIconId p) \<mapsto>
             the (sharp_resize h p (getIconSize (configuration h))
                    (thumbnailPath_of g (generateIconId p))))
      else files w)"
  by (auto simp: render_file_def renders_def generateThumbnail_def Let_def split: option.splits)

lemma render_file_dirs: "dirs (render_file h g exts w p) = dirs w"
  by (auto simp: render_file_def generateThumbnail_def Let_def split: option.splits)

lemma render_file_calls:
  "sharp_calls (render_file h g exts w p) =
     sharp_calls w @
       (if file_ext p \<in> set exts
        then [Resize p (getIconSize (configuration h)) (thumbnailPath_of g (generateIconId p))]
        else [])"
  by (auto simp: render_file_def generateThumbnail_def Let_def split: option.splits)

lemma loop_dirs: "dirs (foldl (render_file h g exts) w fs) = dirs w"
  by (induction fs rule: rev_induct) (simp_all add: render_file_dirs)

lemma loop_calls:
  "sharp_calls (foldl (render_file h g exts) w fs) =
     sharp_calls w @
       map (\<lambda>p. Resize p (getIconSize (configuration h)) (thumbnailPath_of g (generateIconId p)))
         (filter (\<lambda>p. file_ext p \<in> set exts) fs)"
  by (induction fs rule: rev_induct) (simp_all add: render_file_calls)

lemma loop_files_dom:
  "dom (files (foldl (render_file h g exts) w fs)) =
     dom (files w) \<union> (\<lambda>p. thumbnailPath_of g (generateIconId p)) ` {p \<in> set fs. renders h g exts p}"
  by (induction fs rule: rev_induct) (auto simp: render_file_files)

lemma loop_files_frame:
  "q \<notin> (\<lambda>p. thumbnailPath_of g (generateIconId p)) ` {p \<in> set fs. renders h g exts p} \<Longrightarrow>
   files (foldl (render_file h g exts) w fs) q = files w q"
  by (induction fs rule: rev_induct) (auto simp: render_file_files)

lemma fileNames_map_of:
  "map_of (fileNames (foldl (record_icon h g exts) m fs)) n =
     (if n = ''__proto__'' \<or> filter (\<lambda>p. renders h g exts p \<and> path_basename p = n) fs = []
      then map_of (fileNames m) n
      else Some (generateIconId
                   (last (filter (\<lambda>p. renders h g exts p \<and> path_basename p = n) fs))))"
proof (induction fs rule: rev_induct)
  case Nil
  then show ?case by simp
next
  case (snoc p fs)
  show ?case
  proof (cases "renders h g exts p")
    case False
    then show ?thesis using snoc by (simp add: record_icon_False)
  next
    case True
    then show ?thesis using snoc
      by (auto simp: record_icon_True js_set_def update_conv')
  qed
qed

section \<open>The cycle as a whole\<close>

lemma set_js_entries: "set (js_entries obj) = set obj"
  by (auto simp: js_entries_def)



lemma foldl_update_keys:
  "fst ` set (foldl (\<lambda>obj e. AList.update (fst e) (snd e) obj) init es) =
     fst ` set init \<union> fst ` set es"
  by (induction es rule: rev_induct) (auto simp: dom_update)


lemma spread_defaults_keys:
  "fst ` set (spread_defaults defs) = default_keys \<union> fst ` set defs"
  by (auto simp: spread_defaults_def foldl_update_keys set_js_entries default_keys_def)


lemma assemble_eq:
  "assemble h g w =
     (foldl (record_icon h g (getSupportedExtensions (configuration h)))
        \<lparr>iconDefinitions = [], fileNames = []\<rparr> (findImageFiles h),
      foldl (render_file h g (getSupportedExtensions (configuration h))) w (findImageFiles h))"
  by (simp add: assemble_def prod_eq_iff fst_processImageFiles snd_processImageFiles)

lemma assemble_maps_world: "fst (assemble h g w) = fst (assemble h g w')"
  by (simp add: assemble_eq)

lemma assemble_keys:
  "fst ` set (iconDefinitions (fst (assemble h g w))) = generateIconId ` rendered_files h g"
  by (simp add: assemble_eq iconDefinitions_keys rendered_files_def)




lemma assemble_files_dom:
  "dom (files (snd (assemble h g w))) = dom (files w) \<union> thumbnail_paths h g"
  by (simp add: assemble_eq loop_files_dom thumbnail_paths_def rendered_files_def)

lemma assemble_files_frame:
  "q \<notin> thumbnail_paths h g \<Longrightarrow> files (snd (assemble h g w)) q = files w q"
  by (simp add: assemble_eq loop_files_frame thumbnail_paths_def rendered_files_def)

lemma assemble_dirs: "dirs (snd (assemble h g w)) = dirs w"
  by (simp add: assemble_eq loop_dirs)

lemma assemble_calls:
  "sharp_calls (snd (assemble h g w)) =
     sharp_calls w @
       map (\<lambda>p. Resize p (getIconSize (configuration h)) (thumbnailPath_of g (generateIconId p)))
         (filter (\<lambda>p. file_ext p \<in> set (getSupportedExtensions (configuration h))) (findImageFiles h))"
  by (simp add: assemble_eq loop_calls)

lemma self_in_ancestors: "p \<in> set (ancestors n p)"
  by (cases n) simp_all

lemma ensure_output_dir_Inr:
  "ensure_output_dir h g w = Inr w1 \<Longrightarrow>
     files w1 = files w \<and> dirs w \<subseteq> dirs w1 \<and> sharp_calls w1 = sharp_calls w
     \<and> existsSync w1 (outputIconsDir g)"
  by (auto simp: ensure_output_dir_def mkdirSync_def existsSync_def self_in_ancestors
      split: if_splits)

lemma ensure_output_dir_Inl:
  "ensure_output_dir h g w = Inl e \<Longrightarrow> e = MkdirSyncError \<and> mkdirSync_throws h"
  by (auto simp: ensure_output_dir_def split: if_splits)




lemma writeIconTheme_succeeds:
  assumes "\<not> mkdirSync_throws h" and "writeFileSync_outcome h = WriteCompletes"
  shows "\<exists>w3 t. writeIconTheme h g w = (w3, Inr t)"
  using assms
  by (auto simp: writeIconTheme_def ensure_output_dir_def writeFileSync_def Let_def
      split: prod.splits)

lemma pair_with_fst: "snd x = b \<Longrightarrow> x = (fst x, b)"
  by (simp add: prod_eq_iff)

section \<open>Writes, default icons and what a cycle leaves on disk\<close>

lemma writeFileSync_files:
  "files (fst (writeFileSync outcome p c w)) q =
     (if q = p
      then (case outcome of WriteCompletes \<Rightarrow> Some c | WriteFailsAtOpen \<Rightarrow> files w p
            | WriteFailsAfter n \<Rightarrow> Some (take n c))
      else files w q)"
  by (simp add: writeFileSync_def split: write_outcome.splits)

lemma writeFileSync_rest:
  "dirs (fst (writeFileSync outcome p c w)) = dirs w"
  "sharp_calls (fst (writeFileSync outcome p c w)) = sharp_calls w"
  "snd (writeFileSync outcome p c w) = (outcome = WriteCompletes)"
  by (simp_all add: writeFileSync_def split: write_outcome.splits)

lemma createDefaultIcon_files:
  "files (createDefaultIcon h w pc) q =
     (if q = fst pc \<and> \<not> existsSync w (fst pc)
      then (case sharp_create h (getIconSize (configuration h)) (snd pc) (fst pc) of
              Some png \<Rightarrow> Some png | None \<Rightarrow> files w q)
      else files w q)"
  by (simp add: createDefaultIcon_def Let_def split: option.splits)

lemma createDefaultIcon_keep:
  "files w q \<noteq> None \<Longrightarrow> files (createDefaultIcon h w pc) q = files w q"
  by (auto simp: createDefaultIcon_files existsSync_def)

lemma createDefaultIcon_dirs: "dirs (createDefaultIcon h w pc) = dirs w"
  by (simp add: createDefaultIcon_def Let_def split: option.splits)

lemma createDefaultIcon_calls:
  "sharp_calls (createDefaultIcon h w pc) =
     sharp_calls w @
       (if existsSync w (fst pc) then [] else [Create (getIconSize (configuration h)) (fst pc)])"
  by (simp add: createDefaultIcon_def Let_def split: option.splits)

lemma foldl_createDefaultIcon_keep:
  "files w q \<noteq> None \<Longrightarrow> files (foldl (createDefaultIcon h) w pcs) q = files w q"
  by (induction pcs arbitrary: w) (simp_all add: createDefaultIcon_keep)

lemma foldl_createDefaultIcon_frame:
  "q \<notin> fst ` set pcs \<Longrightarrow> files (foldl (createDefaultIcon h) w pcs) q = files w q"
  by (induction pcs arbitrary: w) (simp_all add: createDefaultIcon_files)

lemma foldl_createDefaultIcon_dirs: "dirs (foldl (createDefaultIcon h) w pcs) = dirs w"
  by (induction pcs arbitrary: w) (simp_all add: createDefaultIcon_dirs)

lemma call_size_Create: "call_size (Create n p) = n"
  by (simp add: call_size_def)

lemma call_size_Resize: "call_size (Resize src n p) = n"
  by (simp add: call_size_def)

lemma foldl_createDefaultIcon_calls:
  "\<exists>cs. sharp_calls (foldl (createDefaultIcon h) w pcs) = sharp_calls w @ cs \<and>
        list_all (\<lambda>c. call_size c = getIconSize (configuration h)) cs"
proof (induction pcs arbitrary: w)
  case Nil
  then show ?case by simp
next
  case (Cons pc pcs)
  from Cons [of "createDefaultIcon h w pc"] obtain cs where
    cs: "sharp_calls (foldl (createDefaultIcon h) (createDefaultIcon h w pc) pcs) =
           sharp_calls (createDefaultIcon h w pc) @ cs"
        "list_all (\<lambda>c. call_size c = getIconSize (configuration h)) cs"
    by blast
  show ?case
    by (rule exI [of _ "(if existsSync w (fst pc) then []
            else [Create (getIconSize (configuration h)) (fst pc)]) @ cs"])
       (simp add: cs createDefaultIcon_calls call_size_Create)
qed

lemma createDefaultIcons_keep:
  "files w q \<noteq> None \<Longrightarrow> files (createDefaultIcons h g w) q = files w q"
  by (simp add: createDefaultIcons_def foldl_createDefaultIcon_keep)

lemma createDefaultIcons_frame:
  "q \<notin> fst ` set (default_icon_files g) \<Longrightarrow> files (createDefaultIcons h g w) q = files w q"
  by (simp add: createDefaultIcons_def foldl_createDefaultIcon_frame)

lemma createDefaultIcons_dirs: "dirs (createDefaultIcons h g w) = dirs w"
  by (simp add: createDefaultIcons_def foldl_createDefaultIcon_dirs)

lemma createDefaultIcons_exists:
  "files w q \<noteq> None \<Longrightarrow> files (createDefaultIcons h g w) q \<noteq> None"
  by (simp add: createDefaultIcons_keep)

text \<open>the cycle up to the write, written out\<close>

lemma writeIconTheme_eq:
  "writeIconTheme h g w =
     (case ensure_output_dir h g w of
        Inl e \<Rightarrow> (w, Inl e)
      | Inr w1 \<Rightarrow>
          (fst (writeFileSync (writeFileSync_outcome h) (iconThemePath g)
                 (JSON_stringify (json_of_icon_theme (iconTheme_of h (fst (assemble h g w)))))
                 (snd (assemble h g w1))),
           if writeFileSync_outcome h = WriteCompletes
           then Inr (iconTheme_of h (fst (assemble h g w)))
           else Inl WriteFileSyncError))"
proof (cases "ensure_output_dir h g w")
  case (Inl e)
  then show ?thesis by (simp add: writeIconTheme_def)
next
  case (Inr w1)
  have m: "fst (assemble h g w1) = fst (assemble h g w)"
    by (rule assemble_maps_world)
  show ?thesis
    by (simp add: writeIconTheme_def Inr Let_def case_prod_beta writeFileSync_rest m)
qed

lemma generateIconTheme_part000_eq:
  "generateIconTheme_part000 h g w =
     (case ensure_output_dir h g w of
        Inl e \<Rightarrow> (w, Inl e)
      | Inr w1 \<Rightarrow>
          (fst (writeFileSync (writeFileSync_outcome h) (iconThemePath g)
                 (JSON_stringify (json_of_icon_maps (fst (assemble h g w))))
                 (snd (assemble h g w1))),
           if writeFileSync_outcome h = WriteCompletes
           then Inr (fst (assemble h g w))
           else Inl WriteFileSyncError))"
proof (cases "ensure_output_dir h g w")
  case (Inl e)
  then show ?thesis by (simp add: generateIconTheme_part000_def)
next
  case (Inr w1)
  have m: "fst (assemble h g w1) = fst (assemble h g w)"
    by (rule assemble_maps_world)
  show ?thesis
    by (simp add: generateIconTheme_part000_def Inr Let_def case_prod_beta writeFileSync_rest m)
qed

lemma generateIconTheme_eq:
  "generateIconTheme h g w =
     (case snd (writeIconTheme h g w) of
        Inl e \<Rightarrow> (fst (writeIconTheme h g w), Inl e)
      | Inr t \<Rightarrow> (createDefaultIcons h g (fst (writeIconTheme h g w)), Inr t))"
  by (cases "writeIconTheme h g w") (simp add: generateIconTheme_def split: sum.splits)

lemma snd_generateIconTheme: "snd (generateIconTheme h g w) = snd (writeIconTheme h g w)"
  by (simp add: generateIconTheme_eq split: sum.splits)

lemma writeIconTheme_files_frame:
  "q \<noteq> iconThemePath g \<Longrightarrow> q \<notin> thumbnail_paths h g \<Longrightarrow>
   files (fst (writeIconTheme h g w)) q = files w q"
  by (auto simp: writeIconTheme_eq writeFileSync_files assemble_files_frame
      dest: ensure_output_dir_Inr split: sum.splits)

lemma writeIconTheme_files_exist:
  assumes q: "files w q \<noteq> None"
  shows "files (fst (writeIconTheme h g w)) q \<noteq> None"
proof (cases "ensure_output_dir h g w")
  case (Inl e)
  then show ?thesis using q by (simp add: writeIconTheme_eq)
next
  case (Inr w1)
  from q have "q \<in> dom (files w1)"
    using ensure_output_dir_Inr [OF Inr] by auto
  then have "q \<in> dom (files (snd (assemble h g w1)))"
    by (simp add: assemble_files_dom)
  then show ?thesis
    by (auto simp: writeIconTheme_eq Inr writeFileSync_files split: write_outcome.splits)
qed

lemma writeIconTheme_dirs: "dirs w \<subseteq> dirs (fst (writeIconTheme h g w))"
  by (auto simp: writeIconTheme_eq writeFileSync_rest assemble_dirs
      dest: ensure_output_dir_Inr split: sum.splits)

lemma part000_files_frame:
  "q \<noteq> iconThemePath g \<Longrightarrow> q \<notin> thumbnail_paths h g \<Longrightarrow>
   files (fst (generateIconTheme_part000 h g w)) q = files w q"
  by (auto simp: generateIconTheme_part000_eq writeFileSync_files assemble_files_frame
      dest: ensure_output_dir_Inr split: sum.splits)

lemma part000_files_exist:
  assumes q: "files w q \<noteq> None"
  shows "files (fst (generateIconTheme_part000 h g w)) q \<noteq> None"
proof (cases "ensure_output_dir h g w")
  case (Inl e)
  then show ?thesis using q by (simp add: generateIconTheme_part000_eq)
next
  case (Inr w1)
  from q have "q \<in> dom (files w1)"
    using ensure_output_dir_Inr [OF Inr] by auto
  then have "q \<in> dom (files (snd (assemble h g w1)))"
    by (simp add: assemble_files_dom)
  then show ?thesis
    by (auto simp: generateIconTheme_part000_eq Inr writeFileSync_files split: write_outcome.splits)
qed

lemma generateIconTheme_files_exist:
  assumes q: "files w q \<noteq> None"
  shows "files (fst (generateIconTheme h g w)) q \<noteq> None"
proof -
  note e = writeIconTheme_files_exist [OF q, of h g]
  show ?thesis
  proof (cases "snd (writeIconTheme h g w)")
    case (Inl err)
    then show ?thesis using e by (simp add: generateIconTheme_eq)
  next
    case (Inr t)
    have "files (createDefaultIcons h g (fst (writeIconTheme h g w))) q \<noteq> None"
      using e by (rule createDefaultIcons_exists)
    then show ?thesis using Inr by (simp add: generateIconTheme_eq)
  qed
qed

lemma generateIconTheme_files_frame:
  "q \<noteq> iconThemePath g \<Longrightarrow> q \<notin> thumbnail_paths h g \<Longrightarrow>
   q \<notin> fst ` set (default_icon_files g) \<Longrightarrow>
   files (fst (generateIconTheme h g w)) q = files w q"
  by (auto simp: generateIconTheme_eq writeIconTheme_files_frame createDefaultIcons_frame
      split: sum.splits)

lemma generateIconTheme_files_keep:
  assumes "files w q \<noteq> None" "q \<noteq> iconThemePath g" "q \<notin> thumbnail_paths h g"
  shows "files (fst (generateIconTheme h g w)) q = files w q"
proof -
  have "files (fst (writeIconTheme h g w)) q = files w q"
    using assms by (simp add: writeIconTheme_files_frame)
  then show ?thesis
    using assms(1) by (auto simp: generateIconTheme_eq createDefaultIcons_keep split: sum.splits)
qed

lemma run_cycles_files_exist:
  "files w q \<noteq> None \<Longrightarrow> files (run_cycles g hs w) q \<noteq> None"
  unfolding run_cycles_def
proof (induction hs arbitrary: w)
  case Nil
  then show ?case by simp
next
  case (Cons h hs)
  from Cons.prems have "files (fst (generateIconTheme h g w)) q \<noteq> None"
    by (rule generateIconTheme_files_exist)
  then have "files (foldl (\<lambda>w h. fst (generateIconTheme h g w)) (fst (generateIconTheme h g w)) hs) q
      \<noteq> None"
    by (rule Cons.IH)
  then show ?case by simp
qed

lemma run_cycles_part000_files_exist:
  "files w q \<noteq> None \<Longrightarrow> files (run_cycles_part000 g hs w) q \<noteq> None"
  unfolding run_cycles_part000_def
proof (induction hs arbitrary: w)
  case Nil
  then show ?case by simp
next
  case (Cons h hs)
  from Cons.prems have "files (fst (generateIconTheme_part000 h g w)) q \<noteq> None"
    by (rule part000_files_exist)
  then have "files (foldl (\<lambda>w h. fst (generateIconTheme_part000 h g w))
      (fst (generateIconTheme_part000 h g w)) hs) q \<noteq> None"
    by (rule Cons.IH)
  then show ?case by simp
qed

lemma iconTheme_of_keys:
  "fst ` set (iconDefinitions (iconTheme_of h (fst (assemble h g w)))) =
     default_keys \<union> generateIconId ` rendered_files h g"
  by (simp add: iconTheme_of_def spread_defaults_keys assemble_keys)

lemma generateIconId_not_default: "generateIconId p \<notin> default_keys"
  by (simp add: generateIconId_def default_keys_def)

lemma generateIconTheme_dirs: "dirs w \<subseteq> dirs (fst (generateIconTheme h g w))"
  using writeIconTheme_dirs [of w h g]
  by (auto simp: generateIconTheme_eq createDefaultIcons_dirs split: sum.splits)

lemma generateIconTheme_existsSync:
  assumes "existsSync w p"
  shows "existsSync (fst (generateIconTheme h g w)) p"
proof (cases "files w p \<noteq> None")
  case True
  then have "files (fst (generateIconTheme h g w)) p \<noteq> None"
    by (rule generateIconTheme_files_exist)
  then show ?thesis unfolding existsSync_def by (rule disjI1)
next
  case False
  with assms have "p \<in> dirs w" by (simp add: existsSync_def)
  with generateIconTheme_dirs have "p \<in> dirs (fst (generateIconTheme h g w))" by blast
  then show ?thesis unfolding existsSync_def by (rule disjI2)
qed

lemma part000_dirs: "dirs w \<subseteq> dirs (fst (generateIconTheme_part000 h g w))"
  by (auto simp: generateIconTheme_part000_eq writeFileSync_rest assemble_dirs
      dest: ensure_output_dir_Inr split: sum.splits)

lemma part000_existsSync:
  assumes "existsSync w p"
  shows "existsSync (fst (generateIconTheme_part000 h g w)) p"
proof (cases "files w p \<noteq> None")
  case True
  then have "files (fst (generateIconTheme_part000 h g w)) p \<noteq> None"
    by (rule part000_files_exist)
  then show ?thesis unfolding existsSync_def by (rule disjI1)
next
  case False
  with assms have "p \<in> dirs w" by (simp add: existsSync_def)
  with part000_dirs have "p \<in> dirs (fst (generateIconTheme_part000 h g w))" by blast
  then show ?thesis unfolding existsSync_def by (rule disjI2)
qed

lemma ensure_output_dir_exists:
  "existsSync w (outputIconsDir g) \<Longrightarrow> ensure_output_dir h g w = Inr w"
  by (simp add: ensure_output_dir_def)

lemma ensure_output_dir_again:
  "ensure_output_dir h g w = Inr w0 \<Longrightarrow> ensure_output_dir h g w0 = Inr w0"
  by (rule ensure_output_dir_exists) (simp add: ensure_output_dir_Inr)

lemma writeIconTheme_after_ensure:
  assumes "ensure_output_dir h g w = Inr w0"
  shows "writeIconTheme h g w = writeIconTheme h g w0"
  by (simp add: writeIconTheme_eq [of h g w] writeIconTheme_eq [of h g w0] assms
      ensure_output_dir_again [OF assms] assemble_maps_world [of h g w0 w])

lemma generateIconTheme_after_ensure:
  assumes "ensure_output_dir h g w = Inr w0"
  shows "generateIconTheme h g w = generateIconTheme h g w0"
  by (simp only: generateIconTheme_def writeIconTheme_after_ensure [OF assms])

lemma part000_after_ensure:
  assumes "ensure_output_dir h g w = Inr w0"
  shows "generateIconTheme_part000 h g w = generateIconTheme_part000 h g w0"
  by (simp add: generateIconTheme_part000_eq [of h g w] generateIconTheme_part000_eq [of h g w0]
      assms ensure_output_dir_again [OF assms] assemble_maps_world [of h g w0 w])

text \<open>what a cycle that returns has left on disk\<close>

lemma generateIconTheme_Inr:
  assumes "generateIconTheme h g w = (w1, Inr t)"
  shows "t = iconTheme_of h (fst (assemble h g w))"
    and "writeFileSync_outcome h = WriteCompletes"
    and "files w1 (iconThemePath g) = Some (JSON_stringify (json_of_icon_theme t))"
    and "existsSync w1 (outputIconsDir g)"
proof -
  from assms have s: "snd (writeIconTheme h g w) = Inr t"
    by (metis snd_conv snd_generateIconTheme)
  from s obtain w0 where e: "ensure_output_dir h g w = Inr w0"
    by (cases "ensure_output_dir h g w") (auto simp: writeIconTheme_eq)
  from s e show t: "t = iconTheme_of h (fst (assemble h g w))"
    and o: "writeFileSync_outcome h = WriteCompletes"
    by (auto simp: writeIconTheme_eq split: if_splits)
  have w1: "w1 = createDefaultIcons h g (fst (writeIconTheme h g w))"
    using assms s by (simp add: generateIconTheme_eq)
  have "files (fst (writeIconTheme h g w)) (iconThemePath g) =
          Some (JSON_stringify (json_of_icon_theme t))"
    by (simp add: writeIconTheme_eq e writeFileSync_files o t)
  then show "files w1 (iconThemePath g) = Some (JSON_stringify (json_of_icon_theme t))"
    by (simp add: w1 createDefaultIcons_keep)
  have "existsSync w0 (outputIconsDir g)"
    using ensure_output_dir_Inr [OF e] by simp
  then have "existsSync (fst (generateIconTheme h g w0)) (outputIconsDir g)"
    by (rule generateIconTheme_existsSync)
  then show "existsSync w1 (outputIconsDir g)"
    using assms by (simp add: generateIconTheme_after_ensure [OF e, symmetric])
qed

lemma part000_Inr:
  assumes "generateIconTheme_part000 h g w = (w1, Inr t)"
  shows "t = fst (assemble h g w)"
    and "writeFileSync_outcome h = WriteCompletes"
    and "files w1 (iconThemePath g) = Some (JSON_stringify (json_of_icon_maps t))"
    and "existsSync w1 (outputIconsDir g)"
proof -
  from assms obtain w0 where e: "ensure_output_dir h g w = Inr w0"
    by (cases "ensure_output_dir h g w") (auto simp: generateIconTheme_part000_eq)
  from assms e show t: "t = fst (assemble h g w)"
    and o: "writeFileSync_outcome h = WriteCompletes"
    by (auto simp: generateIconTheme_part000_eq split: if_splits)
  from assms e show "files w1 (iconThemePath g) = Some (JSON_stringify (json_of_icon_maps t))"
    by (auto simp: generateIconTheme_part000_eq writeFileSync_files o t)
  have "existsSync w0 (outputIconsDir g)"
    using ensure_output_dir_Inr [OF e] by simp
  then have "existsSync (fst (generateIconTheme_part000 h g w0)) (outputIconsDir g)"
    by (rule part000_existsSync)
  then show "existsSync w1 (outputIconsDir g)"
    using assms by (simp add: part000_after_ensure [OF e, symmetric])
qed

lemma generateIconTheme_completes:
  assumes "existsSync w (outputIconsDir g)" and "writeFileSync_outcome h = WriteCompletes"
  shows "snd (generateIconTheme h g w) = Inr (iconTheme_of h (fst (assemble h g w)))"
    and "files (fst (generateIconTheme h g w)) (iconThemePath g) =
           Some (JSON_stringify (json_of_icon_theme (iconTheme_of h (fst (assemble h g w)))))"
proof -
  note e = ensure_output_dir_exists [OF assms(1), of h]
  show s: "snd (generateIconTheme h g w) = Inr (iconTheme_of h (fst (assemble h g w)))"
    by (simp add: snd_generateIconTheme writeIconTheme_eq e assms(2))
  then have "generateIconTheme h g w =
      (fst (generateIconTheme h g w), Inr (iconTheme_of h (fst (assemble h g w))))"
    by (rule pair_with_fst)
  from generateIconTheme_Inr(3) [OF this]
  show "files (fst (generateIconTheme h g w)) (iconThemePath g) =
           Some (JSON_stringify (json_of_icon_theme (iconTheme_of h (fst (assemble h g w)))))" .
qed

lemma part000_completes:
  assumes "existsSync w (outputIconsDir g)" and "writeFileSync_outcome h = WriteCompletes"
  shows "snd (generateIconTheme_part000 h g w) = Inr (fst (assemble h g w))"
    and "files (fst (generateIconTheme_part000 h g w)) (iconThemePath g) =
           Some (JSON_stringify (json_of_icon_maps (fst (assemble h g w))))"
proof -
  note e = ensure_output_dir_exists [OF assms(1), of h]
  show s: "snd (generateIconTheme_part000 h g w) = Inr (fst (assemble h g w))"
    by (simp add: generateIconTheme_part000_eq e assms(2))
  then have "generateIconTheme_part000 h g w =
      (fst (generateIconTheme_part000 h g w), Inr (fst (assemble h g w)))"
    by (rule pair_with_fst)
  from part000_Inr(3) [OF this]
  show "files (fst (generateIconTheme_part000 h g w)) (iconThemePath g) =
           Some (JSON_stringify (json_of_icon_maps (fst (assemble h g w))))" .
qed

section \<open>The calls of the image library\<close>

lemma rendered_files_subset: "rendered_files h g \<subseteq> set (findImageFiles h)"
  by (auto simp: rendered_files_def)

lemma writeIconTheme_calls:
  "sharp_calls (fst (writeIconTheme h g w)) =
     (case ensure_output_dir h g w of
        Inl e \<Rightarrow> sharp_calls w
      | Inr w0 \<Rightarrow>
          sharp_calls w @
            map (\<lambda>p. Resize p (getIconSize (configuration h)) (thumbnailPath_of g (generateIconId p)))
              (filter (\<lambda>p. file_ext p \<in> set (getSupportedExtensions (configuration h)))
                 (findImageFiles h)))"
  by (auto simp: writeIconTheme_eq writeFileSync_rest assemble_calls
      dest: ensure_output_dir_Inr split: sum.splits)

lemma part000_calls:
  "sharp_calls (fst (generateIconTheme_part000 h g w)) =
     (case ensure_output_dir h g w of
        Inl e \<Rightarrow> sharp_calls w
      | Inr w0 \<Rightarrow>
          sharp_calls w @
            map (\<lambda>p. Resize p (getIconSize (configuration h)) (thumbnailPath_of g (generateIconId p)))
              (filter (\<lambda>p. file_ext p \<in> set (getSupportedExtensions (configuration h)))
                 (findImageFiles h)))"
  by (auto simp: generateIconTheme_part000_eq writeFileSync_rest assemble_calls
      dest: ensure_output_dir_Inr split: sum.splits)

lemma list_all_resize:
  "list_all (\<lambda>c. call_size c = n) (map (\<lambda>p. Resize p n (f p)) ps)"
  by (induction ps) (simp_all add: call_size_Resize)

lemma writeIconTheme_new_calls:
  "\<exists>cs. sharp_calls (fst (writeIconTheme h g w)) = sharp_calls w @ cs \<and>
        list_all (\<lambda>c. call_size c = getIconSize (configuration h)) cs"
proof (cases "ensure_output_dir h g w")
  case (Inl e)
  then show ?thesis by (simp add: writeIconTheme_calls)
next
  case (Inr w0)
  show ?thesis
    by (simp add: writeIconTheme_calls Inr list_all_resize)
qed

lemma part000_new_calls:
  "\<exists>cs. sharp_calls (fst (generateIconTheme_part000 h g w)) = sharp_calls w @ cs \<and>
        list_all (\<lambda>c. call_size c = getIconSize (configuration h)) cs"
proof (cases "ensure_output_dir h g w")
  case (Inl e)
  then show ?thesis by (simp add: part000_calls)
next
  case (Inr w0)
  show ?thesis
    by (simp add: part000_calls Inr list_all_resize)
qed

lemma generateIconTheme_new_calls:
  "\<exists>cs. sharp_calls (fst (generateIconTheme h g w)) = sharp_calls w @ cs \<and>
        list_all (\<lambda>c. call_size c = getIconSize (configuration h)) cs"
proof -
  from writeIconTheme_new_calls [of h g w] obtain cs where
    cs: "sharp_calls (fst (writeIconTheme h g w)) = sharp_calls w @ cs"
        "list_all (\<lambda>c. call_size c = getIconSize (configuration h)) cs"
    by blast
  show ?thesis
  proof (cases "snd (writeIconTheme h g w)")
    case (Inl e)
    then show ?thesis using cs by (simp add: generateIconTheme_eq)
  next
    case (Inr t)
    from foldl_createDefaultIcon_calls [of h "fst (writeIconTheme h g w)" "default_icon_files g"]
    obtain ds where
      ds: "sharp_calls (createDefaultIcons h g (fst (writeIconTheme h g w))) =
             sharp_calls (fst (writeIconTheme h g w)) @ ds"
          "list_all (\<lambda>c. call_size c = getIconSize (configuration h)) ds"
      unfolding createDefaultIcons_def by blast
    show ?thesis
      by (rule exI [of _ "cs @ ds"]) (simp add: generateIconTheme_eq Inr ds cs)
  qed
qed

section \<open>The order of discovery\<close>

lemma renders_findFiles:
  "renders (h\<lparr>findFiles := f\<rparr>) g exts = renders h g exts"
  by (rule ext) (simp add: renders_def)

lemma record_icon_findFiles:
  "record_icon (h\<lparr>findFiles := f\<rparr>) g exts = record_icon h g exts"
  by (intro ext) (simp add: record_icon_def renders_findFiles relativePath_of_def)

lemma rendered_files_findFiles:
  "set (findImageFiles (h\<lparr>findFiles := f\<rparr>)) = set (findImageFiles h) \<Longrightarrow>
   rendered_files (h\<lparr>findFiles := f\<rparr>) g = rendered_files h g"
  by (simp add: rendered_files_def renders_findFiles)

lemma iconDefinitions_order:
  "map fst (iconDefinitions (foldl (record_icon h g exts) m fs)) =
     rev (remdups (rev (map fst (iconDefinitions m) @
                      map generateIconId (filter (renders h g exts) fs))))"
  if "distinct (map fst (iconDefinitions m))"
  using that
proof (induction fs rule: rev_induct)
  case Nil
  then show ?case by (simp add: distinct_remdups_id)
next
  case (snoc p fs)
  show ?case
  proof (cases "renders h g exts p")
    case False
    then show ?thesis using snoc by (simp add: record_icon_False)
  next
    case True
    then show ?thesis using snoc
      by (auto simp: record_icon_True js_set_iconId update_keys)
  qed
qed

lemma assemble_order:
  "map fst (iconDefinitions (fst (assemble h g w))) =
     rev (remdups (rev (map generateIconId
       (filter (renders h g (getSupportedExtensions (configuration h))) (findImageFiles h)))))"
  by (simp add: assemble_eq iconDefinitions_order)

lemma assemble_fileNames_map_of:
  "map_of (fileNames (fst (assemble h g w))) n =
     (if n = ''__proto__'' \<or> filter (\<lambda>p. path_basename p = n)
            (filter (renders h g (getSupportedExtensions (configuration h))) (findImageFiles h)) = []
      then None
      else Some (generateIconId (last (filter (\<lambda>p. path_basename p = n)
            (filter (renders h g (getSupportedExtensions (configuration h))) (findImageFiles h))))))"
  by (simp add: assemble_eq fileNames_map_of conj_commute)

lemma last_filter_unique:
  assumes "inj_on b (set xs)" "set xs = set ys"
  shows "filter (\<lambda>p. b p = n) xs = [] \<longleftrightarrow> filter (\<lambda>p. b p = n) ys = []"
    and "filter (\<lambda>p. b p = n) xs \<noteq> [] \<Longrightarrow>
         last (filter (\<lambda>p. b p = n) xs) = last (filter (\<lambda>p. b p = n) ys)"
proof -
  show e: "filter (\<lambda>p. b p = n) xs = [] \<longleftrightarrow> filter (\<lambda>p. b p = n) ys = []"
    using assms(2) by (auto simp: filter_empty_conv)
  assume ne: "filter (\<lambda>p. b p = n) xs \<noteq> []"
  then have ne': "filter (\<lambda>p. b p = n) ys \<noteq> []" using e by simp
  from ne have "last (filter (\<lambda>p. b p = n) xs) \<in> set (filter (\<lambda>p. b p = n) xs)"
    by (rule last_in_set)
  then have x: "last (filter (\<lambda>p. b p = n) xs) \<in> set xs"
    "b (last (filter (\<lambda>p. b p = n) xs)) = n" by auto
  from ne' have "last (filter (\<lambda>p. b p = n) ys) \<in> set (filter (\<lambda>p. b p = n) ys)"
    by (rule last_in_set)
  then have y: "last (filter (\<lambda>p. b p = n) ys) \<in> set xs"
    "b (last (filter (\<lambda>p. b p = n) ys)) = n" using assms(2) by auto
  from x(2) y(2) have "b (last (filter (\<lambda>p. b p = n) xs)) = b (last (filter (\<lambda>p. b p = n) ys))"
    by simp
  with assms(1) show "last (filter (\<lambda>p. b p = n) xs) = last (filter (\<lambda>p. b p = n) ys)"
    using x(1) y(1) by (rule inj_onD)
qed

section \<open>Failures of a cycle\<close>

lemma generateIconTheme_keys:
  assumes "snd (generateIconTheme h g w) = Inr t"
  shows "fst ` set (iconDefinitions t) = default_keys \<union> generateIconId ` rendered_files h g"
proof -
  from generateIconTheme_Inr(1) [OF pair_with_fst [OF assms]]
  show ?thesis by (simp add: iconTheme_of_keys)
qed

lemma part000_keys:
  assumes "snd (generateIconTheme_part000 h g w) = Inr t"
  shows "fst ` set (iconDefinitions t) = generateIconId ` rendered_files h g"
proof -
  from part000_Inr(1) [OF pair_with_fst [OF assms]]
  show ?thesis by (simp add: assemble_keys)
qed

lemma generateIconTheme_mkdir_error:
  assumes "snd (generateIconTheme h g w) = Inl MkdirSyncError"
  shows "fst (generateIconTheme h g w) = w"
proof (cases "ensure_output_dir h g w")
  case (Inl e)
  then show ?thesis by (simp add: generateIconTheme_eq writeIconTheme_eq)
next
  case (Inr w0)
  with assms show ?thesis
    by (simp add: snd_generateIconTheme writeIconTheme_eq split: if_splits)
qed

lemma part000_mkdir_error:
  assumes "snd (generateIconTheme_part000 h g w) = Inl MkdirSyncError"
  shows "fst (generateIconTheme_part000 h g w) = w"
proof (cases "ensure_output_dir h g w")
  case (Inl e)
  then show ?thesis by (simp add: generateIconTheme_part000_eq)
next
  case (Inr w0)
  with assms show ?thesis
    by (simp add: generateIconTheme_part000_eq split: if_splits)
qed

lemma generateIconTheme_write_fails:
  assumes e: "ensure_output_dir h g w = Inr w0"
    and o: "writeFileSync_outcome h \<noteq> WriteCompletes"
  shows "snd (generateIconTheme h g w) = Inl WriteFileSyncError"
    and "files (fst (generateIconTheme h g w)) (iconThemePath g) =
      (case writeFileSync_outcome h of
         WriteFailsAfter n \<Rightarrow>
           Some (take n (JSON_stringify (json_of_icon_theme (iconTheme_of h (fst (assemble h g w))))))
       | _ \<Rightarrow> files (snd (assemble h g w0)) (iconThemePath g))"
  using o by (simp_all add: generateIconTheme_eq writeIconTheme_eq e writeFileSync_files
      split: write_outcome.splits)

lemma part000_write_fails:
  assumes e: "ensure_output_dir h g w = Inr w0"
    and o: "writeFileSync_outcome h \<noteq> WriteCompletes"
  shows "snd (generateIconTheme_part000 h g w) = Inl WriteFileSyncError"
    and "files (fst (generateIconTheme_part000 h g w)) (iconThemePath g) =
      (case writeFileSync_outcome h of
         WriteFailsAfter n \<Rightarrow>
           Some (take n (JSON_stringify (json_of_icon_maps (fst (assemble h g w)))))
       | _ \<Rightarrow> files (snd (assemble h g w0)) (iconThemePath g))"
  using o by (simp_all add: generateIconTheme_part000_eq e writeFileSync_files
      split: write_outcome.splits)

lemma generateIconTheme_write_completes:
  assumes e: "ensure_output_dir h g w = Inr w0"
    and o: "writeFileSync_outcome h = WriteCompletes"
  shows "snd (generateIconTheme h g w) = Inr (iconTheme_of h (fst (assemble h g w)))"
    and "files (fst (generateIconTheme h g w)) (iconThemePath g) =
      Some (JSON_stringify (json_of_icon_theme (iconTheme_of h (fst (assemble h g w)))))"
proof -
  have x: "existsSync w0 (outputIconsDir g)"
    using ensure_output_dir_Inr [OF e] by simp
  have m: "fst (assemble h g w0) = fst (assemble h g w)"
    by (rule assemble_maps_world)
  from generateIconTheme_completes [OF x o]
  show "snd (generateIconTheme h g w) = Inr (iconTheme_of h (fst (assemble h g w)))"
    and "files (fst (generateIconTheme h g w)) (iconThemePath g) =
      Some (JSON_stringify (json_of_icon_theme (iconTheme_of h (fst (assemble h g w)))))"
    by (simp_all add: generateIconTheme_after_ensure [OF e] m)
qed

lemma part000_write_completes:
  assumes e: "ensure_output_dir h g w = Inr w0"
    and o: "writeFileSync_outcome h = WriteCompletes"
  shows "snd (generateIconTheme_part000 h g w) = Inr (fst (assemble h g w))"
    and "files (fst (generateIconTheme_part000 h g w)) (iconThemePath g) =
      Some (JSON_stringify (json_of_icon_maps (fst (assemble h g w))))"
proof -
  have x: "existsSync w0 (outputIconsDir g)"
    using ensure_output_dir_Inr [OF e] by simp
  have m: "fst (assemble h g w0) = fst (assemble h g w)"
    by (rule assemble_maps_world)
  from part000_completes [OF x o]
  show "snd (generateIconTheme_part000 h g w) = Inr (fst (assemble h g w))"
    and "files (fst (generateIconTheme_part000 h g w)) (iconThemePath g) =
      Some (JSON_stringify (json_of_icon_maps (fst (assemble h g w))))"
    by (simp_all add: part000_after_ensure [OF e] m)
qed

lemma descriptor_untouched_by_loop:
  assumes e: "ensure_output_dir h g w = Inr w0" and n: "iconThemePath g \<notin> thumbnail_paths h g"
  shows "files (snd (assemble h g w0)) (iconThemePath g) = files w (iconThemePath g)"
  using ensure_output_dir_Inr [OF e] n by (simp add: assemble_files_frame)

section \<open>Timeouts and notifications\<close>

lemma scheduleIconRegeneration_eq:
  "scheduleIconRegeneration s =
     s\<lparr>timers := (case regenerateTimer s of Some r \<Rightarrow> filter (\<lambda>x. fst x \<noteq> r) (timers s)
                   | None \<Rightarrow> timers s) @ [(next_handle s, now s + 500)],
       next_handle := next_handle s + 1,
       regenerateTimer := Some (next_handle s)\<rparr>"
  by (simp add: scheduleIconRegeneration_def setTimeout_def clearTimeout_def Let_def
      split: option.splits)

lemma scheduleIconRegeneration_tidy:
  assumes "tidy s"
  shows "timers (scheduleIconRegeneration s) = [(next_handle s, now s + 500)]"
    and "tidy (scheduleIconRegeneration s)"
    and "started (scheduleIconRegeneration s) = started s"
    and "in_flight (scheduleIconRegeneration s) = in_flight s"
    and "now (scheduleIconRegeneration s) = now s"
    and "fileWatcher (scheduleIconRegeneration s) = fileWatcher s"
  using assms
  by (auto simp: scheduleIconRegeneration_eq tidy_def split: option.splits list.splits)

lemma advance_no_timer:
  assumes "timers s = []"
  shows "advance t s = s\<lparr>now := max (now s) t\<rparr>"
  using assms by (simp add: advance_def)

lemma advance_not_due:
  assumes "timers s = [(r, d)]" "t < d"
  shows "advance t s = s\<lparr>now := max (now s) t\<rparr>"
  using assms by (simp add: advance_def)

lemma advance_due:
  assumes "timers s = [(r, d)]" "d \<le> t"
  shows "advance t s =
     s\<lparr>timers := [], now := max (max (now s) d) t, in_flight := in_flight s + 1,
       started := started s @ [max (now s) d]\<rparr>"
  using assms by (simp add: advance_def call_generateIconTheme_def)

lemma advance_tidy:
  assumes "tidy s" "now s \<le> t"
  shows "tidy (advance t s)"
    and "now (advance t s) = t"
    and "fileWatcher (advance t s) = fileWatcher s"
    and "regenerateTimer (advance t s) = regenerateTimer s"
    and "started (advance t s) =
           started s @ (case timer_due s of Some d \<Rightarrow> (if d \<le> t then [d] else []) | None \<Rightarrow> [])"
    and "timer_due (advance t s) =
           (case timer_due s of Some d \<Rightarrow> (if d \<le> t then None else Some d) | None \<Rightarrow> None)"
proof -
  have "tidy (advance t s) \<and> now (advance t s) = t \<and>
    fileWatcher (advance t s) = fileWatcher s \<and>
    regenerateTimer (advance t s) = regenerateTimer s \<and>
    started (advance t s) =
           started s @ (case timer_due s of Some d \<Rightarrow> (if d \<le> t then [d] else []) | None \<Rightarrow> []) \<and>
    timer_due (advance t s) =
           (case timer_due s of Some d \<Rightarrow> (if d \<le> t then None else Some d) | None \<Rightarrow> None)"
  proof (cases "timers s")
    case Nil
    then show ?thesis using assms
      by (auto simp: advance_no_timer tidy_def timer_due_def max_def split: option.splits)
  next
    case (Cons x xs)
    obtain r d where x: "x = (r, d)" by (cases x)
    from Cons assms(1) have xs: "xs = []" and rt: "regenerateTimer s = Some r" and nd: "now s \<le> d"
      by (simp_all add: tidy_def x)
    have ts: "timers s = [(r, d)]" using Cons x xs by simp
    show ?thesis
    proof (cases "d \<le> t")
      case True
      then show ?thesis using assms ts rt nd
        by (simp add: advance_due [OF ts True] tidy_def timer_due_def max_def)
    next
      case False
      then have lt: "t < d" by simp
      show ?thesis using assms ts rt nd lt
        by (simp add: advance_not_due [OF ts lt] tidy_def timer_due_def max_def)
    qed
  qed
  then show "tidy (advance t s)"
    and "now (advance t s) = t"
    and "fileWatcher (advance t s) = fileWatcher s"
    and "regenerateTimer (advance t s) = regenerateTimer s"
    and "started (advance t s) =
           started s @ (case timer_due s of Some d \<Rightarrow> (if d \<le> t then [d] else []) | None \<Rightarrow> [])"
    and "timer_due (advance t s) =
           (case timer_due s of Some d \<Rightarrow> (if d \<le> t then None else Some d) | None \<Rightarrow> None)"
    by simp_all
qed

lemma handle_notifies:
  assumes "notifies s e"
  shows "handle e s = scheduleIconRegeneration (with_settings e s)"
proof (cases e)
  case (ConfigurationChanged c)
  with assms obtain c' where "c = Some c'" by (auto simp: notifies_def)
  with ConfigurationChanged show ?thesis by (simp add: with_settings_def)
qed (use assms in \<open>simp_all add: notifies_def with_settings_def\<close>)

lemma with_settings_fields:
  "now (with_settings e s) = now s"
  "timers (with_settings e s) = timers s"
  "regenerateTimer (with_settings e s) = regenerateTimer s"
  "next_handle (with_settings e s) = next_handle s"
  "started (with_settings e s) = started s"
  "in_flight (with_settings e s) = in_flight s"
  "fileWatcher (with_settings e s) = fileWatcher s"
  by (simp_all add: with_settings_def split: event.splits option.splits)

lemma with_settings_tidy: "tidy (with_settings e s) = tidy s"
  by (simp add: tidy_def with_settings_fields cong: list.case_cong option.case_cong)

lemma notifies_fileWatcher:
  "fileWatcher s' = fileWatcher s \<Longrightarrow> notifies s' e = notifies s e"
  by (simp add: notifies_def watcher_fires_def split: event.splits)

lemma notification_step:
  assumes "tidy s" "now s \<le> t" "notifies s e"
  shows "tidy (handle e (advance t s))"
    and "now (handle e (advance t s)) = t"
    and "fileWatcher (handle e (advance t s)) = fileWatcher s"
    and "timer_due (handle e (advance t s)) = Some (t + 500)"
    and "map snd (timers (handle e (advance t s))) = [t + 500]"
    and "started (handle e (advance t s)) =
           started s @ (case timer_due s of Some d \<Rightarrow> (if d \<le> t then [d] else []) | None \<Rightarrow> [])"
proof -
  note a = advance_tidy [OF assms(1,2)]
  have n: "notifies (advance t s) e"
    using assms(3) notifies_fileWatcher [OF a(3), of e] by simp
  note h = handle_notifies [OF n]
  have t': "tidy (with_settings e (advance t s))"
    using a(1) by (simp add: with_settings_tidy)
  note b = scheduleIconRegeneration_tidy [OF t']
  show "tidy (handle e (advance t s))" unfolding h by (rule b(2))
  show "now (handle e (advance t s)) = t"
    unfolding h b(5) with_settings_fields by (rule a(2))
  show "fileWatcher (handle e (advance t s)) = fileWatcher s"
    unfolding h b(6) with_settings_fields by (rule a(3))
  show "timer_due (handle e (advance t s)) = Some (t + 500)"
    unfolding h timer_due_def b(1) with_settings_fields a(2) by simp
  show "map snd (timers (handle e (advance t s))) = [t + 500]"
    unfolding h b(1) with_settings_fields a(2) by simp
  show "started (handle e (advance t s)) =
           started s @ (case timer_due s of Some d \<Rightarrow> (if d \<le> t then [d] else []) | None \<Rightarrow> [])"
    unfolding h b(3) with_settings_fields by (rule a(5))
qed

lemma run_notifications:
  assumes "tidy s" "sorted (now s # map fst evs)" "list_all (\<lambda>te. notifies s (snd te)) evs"
  shows "tidy (run s evs)"
    and "started (run s evs) = started s @ fst (debounce (timer_due s) (map fst evs))"
    and "timer_due (run s evs) = snd (debounce (timer_due s) (map fst evs))"
    and "now (run s evs) = last (now s # map fst evs)"
    and "fileWatcher (run s evs) = fileWatcher s"
proof -
  have "tidy (run s evs) \<and>
    started (run s evs) = started s @ fst (debounce (timer_due s) (map fst evs)) \<and>
    timer_due (run s evs) = snd (debounce (timer_due s) (map fst evs)) \<and>
    now (run s evs) = last (now s # map fst evs) \<and>
    fileWatcher (run s evs) = fileWatcher s"
    using assms
  proof (induction evs arbitrary: s)
    case Nil
    then show ?case by simp
  next
    case (Cons te evs)
    let ?s = "handle (snd te) (advance (fst te) s)"
    from Cons.prems have le: "now s \<le> fst te" and n: "notifies s (snd te)"
      by simp_all
    note st = notification_step [OF Cons.prems(1) le n]
    have so: "sorted (now ?s # map fst evs)"
      using Cons.prems(2) st(2) by simp
    have al: "list_all (\<lambda>te. notifies ?s (snd te)) evs"
      using Cons.prems(3) st(3) by (simp add: notifies_fileWatcher [of ?s s])
    note ih = Cons.IH [OF st(1) so al]
    show ?case
      using ih st by (simp add: case_prod_beta split: option.splits)
  qed
  then show "tidy (run s evs)"
    and "started (run s evs) = started s @ fst (debounce (timer_due s) (map fst evs))"
    and "timer_due (run s evs) = snd (debounce (timer_due s) (map fst evs))"
    and "now (run s evs) = last (now s # map fst evs)"
    and "fileWatcher (run s evs) = fileWatcher s"
    by simp_all
qed


lemma register_handlers_tidy:
  "tidy (register_handlers m c t)" "timers (register_handlers m c t) = []"
  "now (register_handlers m c t) = t" "started (register_handlers m c t) = []"
  "in_flight (register_handlers m c t) = 0"
  "fileWatcher (register_handlers m c t) =
     Some (createFileSystemWatcher m (glob_pattern (getSupportedExtensions c)))"
  by (simp_all add: register_handlers_def tidy_def activateIconTheme_def Let_def)

lemma debounce_burst:
  "successively (\<lambda>a b. b < a + 500) (t # ts) \<Longrightarrow>
   debounce (Some (t + 500)) ts = ([], Some (last (t # ts) + 500))"
proof (induction ts arbitrary: t)
  case Nil
  then show ?case by simp
next
  case (Cons u us)
  from Cons.prems have "u < t + 500" and "successively (\<lambda>a b. b < a + 500) (u # us)"
    by simp_all
  with Cons.IH [of u] show ?case by simp
qed

lemma debounce_spaced:
  "successively (\<lambda>a b. a + 500 < b) (t # ts) \<Longrightarrow>
   debounce (Some (t + 500)) ts = (map (\<lambda>x. x + 500) (butlast (t # ts)), Some (last (t # ts) + 500))"
proof (induction ts arbitrary: t)
  case Nil
  then show ?case by simp
next
  case (Cons u us)
  from Cons.prems have "t + 500 < u" and "successively (\<lambda>a b. a + 500 < b) (u # us)"
    by simp_all
  with Cons.IH [of u] show ?case by simp
qed

lemma debounce_quiet:
  "sorted (t # ts) \<Longrightarrow>
   x \<in> set (fst (debounce (Some (t + 500)) ts)) \<union> set_option (snd (debounce (Some (t + 500)) ts)) \<Longrightarrow>
   \<exists>u\<in>set (t # ts). x = u + 500 \<and> (\<forall>t'\<in>set (t # ts). t' \<le> u \<or> x \<le> t')"
proof (induction ts arbitrary: t)
  case Nil
  then show ?case by simp
next
  case (Cons u us)
  from Cons.prems(1) have tu: "t \<le> u" and so: "sorted (u # us)" and all: "\<forall>v\<in>set us. u \<le> v"
    by simp_all
  from Cons.prems(2) consider
      "t + 500 \<le> u" "x = t + 500"
    | "x \<in> set (fst (debounce (Some (u + 500)) us)) \<union> set_option (snd (debounce (Some (u + 500)) us))"
    by (auto split: if_splits)
  then show ?case
  proof cases
    case 1
    then show ?thesis using all by (intro bexI [of _ t]) auto
  next
    case 2
    from Cons.IH [OF so 2] obtain v where
      v: "v \<in> set (u # us)" "x = v + 500" "\<forall>t'\<in>set (u # us). t' \<le> v \<or> x \<le> t'"
      by blast
    from v(1) all have "u \<le> v" by auto
    with tu have "t \<le> v" by simp
    with v show ?thesis by (intro bexI [of _ v]) auto
  qed
qed

lemma run_then_quiet:
  assumes "tidy s" "timers s = []" "evs \<noteq> []"
    and "list_all (\<lambda>te. notifies s (snd te)) evs" "sorted (now s # map fst evs)"
    and "last (map fst evs) + 500 \<le> T"
  shows "started (advance T (run s evs)) =
           started s @ fst (debounce None (map fst evs))
             @ [last (map fst evs) + 500]"
    and "snd (debounce None (map fst evs)) = Some (last (map fst evs) + 500)"
proof -
  note r = run_notifications [OF assms(1,5,4)]
  have d: "timer_due s = None" using assms(2) by (simp add: timer_due_def)
  obtain te rest where evs: "evs = te # rest" using assms(3) by (cases evs) auto
  have sn: "snd (debounce (Some d0) ts) = Some (last (t0 # ts) + 500)" if "d0 = t0 + 500"
    for d0 t0 ts using that by (induction ts arbitrary: d0 t0) simp_all
  show l: "snd (debounce None (map fst evs)) = Some (last (map fst evs) + 500)"
    using sn [of "fst te + 500" "fst te" "map fst rest"] by (simp add: evs)
  have nw: "now (run s evs) \<le> T"
    using r(4) assms(3,6) by (simp add: evs)
  from advance_tidy(5) [OF r(1) nw]
  show "started (advance T (run s evs)) =
           started s @ fst (debounce None (map fst evs)) @ [last (map fst evs) + 500]"
    using assms(6) by (simp add: r(2,3) d l)
qed

lemma call_generateIconTheme_fields:
  "in_flight (call_generateIconTheme s) = in_flight s + 1"
  "started (call_generateIconTheme s) = started s @ [now s]"
  "timers (call_generateIconTheme s) = timers s"
  "now (call_generateIconTheme s) = now s"
  "regenerateTimer (call_generateIconTheme s) = regenerateTimer s"
  "next_handle (call_generateIconTheme s) = next_handle s"
  "fileWatcher (call_generateIconTheme s) = fileWatcher s"
  by (simp_all add: call_generateIconTheme_def)

lemma run_refresh_commands:
  "timers s = [] \<Longrightarrow>
   in_flight (run s (map (\<lambda>t. (t, RefreshCommand)) ts)) = in_flight s + length ts \<and>
   length (started (run s (map (\<lambda>t. (t, RefreshCommand)) ts))) = length (started s) + length ts"
proof (induction ts arbitrary: s)
  case Nil
  then show ?case by simp
next
  case (Cons t ts)
  let ?s = "handle RefreshCommand (advance t s)"
  have t: "timers ?s = []"
    using Cons.prems by (simp add: advance_no_timer call_generateIconTheme_fields)
  have "in_flight ?s = in_flight s + 1" "length (started ?s) = length (started s) + 1"
    using Cons.prems by (simp_all add: advance_no_timer call_generateIconTheme_fields)
  with Cons.IH [OF t] show ?case by simp
qed

section \<open>The pattern of the watcher\<close>







section \<open>A second cycle, and a timeout that fires\<close>

lemma assemble_same_inputs:
  assumes "configuration h' = configuration h" "cwd h' = cwd h"
    and "sharp_resize h' = sharp_resize h" "findImageFiles h' = findImageFiles h"
  shows "fst (assemble h' g w') = fst (assemble h g w)"
proof -
  have a: "renders h' g exts p = renders h g exts p" for exts p
    by (simp only: renders_def assms(1,3))
  have b: "relativePath_of h' g x = relativePath_of h g x" for x
    by (simp only: relativePath_of_def assms(2))
  have "record_icon h' g exts = record_icon h g exts" for exts
    by (intro ext) (simp only: record_icon_def a b)
  then show ?thesis by (simp only: assemble_eq fst_conv assms(1,4))
qed

lemma iconTheme_of_same_inputs:
  "configuration h' = configuration h \<Longrightarrow> iconTheme_of h' m = iconTheme_of h m"
  by (simp add: iconTheme_of_def)

lemma second_run_descriptor:
  assumes "snd (generateIconTheme h g w) = Inr t" "writeFileSync_outcome h' = WriteCompletes"
  shows "files (fst (generateIconTheme h g w)) (iconThemePath g) =
           Some (JSON_stringify (json_of_icon_theme t))"
    and "files (fst (generateIconTheme h' g (fst (generateIconTheme h g w)))) (iconThemePath g) =
           Some (JSON_stringify (json_of_icon_theme (iconTheme_of h' (fst (assemble h' g w)))))"
proof -
  note r = generateIconTheme_Inr [OF pair_with_fst [OF assms(1)]]
  show "files (fst (generateIconTheme h g w)) (iconThemePath g) =
           Some (JSON_stringify (json_of_icon_theme t))"
    by (rule r(3))
  show "files (fst (generateIconTheme h' g (fst (generateIconTheme h g w)))) (iconThemePath g) =
           Some (JSON_stringify (json_of_icon_theme (iconTheme_of h' (fst (assemble h' g w)))))"
    using generateIconTheme_completes(2) [OF r(4) assms(2)]
      assemble_maps_world [of h' g "fst (generateIconTheme h g w)" w] by simp
qed

lemma second_run_descriptor_part000:
  assumes "snd (generateIconTheme_part000 h g w) = Inr t" "writeFileSync_outcome h' = WriteCompletes"
  shows "files (fst (generateIconTheme_part000 h g w)) (iconThemePath g) =
           Some (JSON_stringify (json_of_icon_maps t))"
    and "files (fst (generateIconTheme_part000 h' g (fst (generateIconTheme_part000 h g w))))
             (iconThemePath g) =
           Some (JSON_stringify (json_of_icon_maps (fst (assemble h' g w))))"
proof -
  note r = part000_Inr [OF pair_with_fst [OF assms(1)]]
  show "files (fst (generateIconTheme_part000 h g w)) (iconThemePath g) =
           Some (JSON_stringify (json_of_icon_maps t))"
    by (rule r(3))
  show "files (fst (generateIconTheme_part000 h' g (fst (generateIconTheme_part000 h g w))))
             (iconThemePath g) =
           Some (JSON_stringify (json_of_icon_maps (fst (assemble h' g w))))"
    using part000_completes(2) [OF r(4) assms(2)]
      assemble_maps_world [of h' g "fst (generateIconTheme_part000 h g w)" w] by simp
qed

lemma Some_differ: "a = Some x \<Longrightarrow> b = Some y \<Longrightarrow> y \<noteq> x \<Longrightarrow> b \<noteq> a"
  by simp

lemma example_host_write_completes: "writeFileSync_outcome (example_host found) = WriteCompletes"
  by (simp add: example_host_def)


section \<open>Properties\<close>

text \<open>
  C1 (evaluation at the failing input). The claim says that two distinct source paths
  never get the same identifier. The paths \<open>/w/a-b.png\<close> and \<open>/w/a_b.png\<close> are
  distinct, and \<open>generateIconId\<close> maps both to \<open>img__w_a_b_png\<close>: every character
  outside \<open>[a-zA-Z0-9]\<close> is replaced by the same underscore.
\<close>

theorem generateIconId_collision:
  "generateIconId ''/w/a-b.png'' = ''img__w_a_b_png'' \<and>
   generateIconId ''/w/a_b.png'' = ''img__w_a_b_png'' \<and>
   ''/w/a-b.png'' \<noteq> ''/w/a_b.png''"
  by (simp add: generateIconId_def is_alnum_def is_lower_def is_upper_def is_digit_def)




text \<open>
  C6 (as amended). A cycle that returns, followed by a second cycle on the disk it left,
  returns the same descriptor and leaves the same text in the descriptor file, the text
  written the first time, \<open>JSON.stringify\<close> of that descriptor, provided that the second
  cycle has the same settings, the same working directory and the same outcomes of the
  renderer, that its write completes as the first did, and that its discovery returns the
  same files in the same order. This holds for both revisions of \<open>generateIconTheme\<close>.
  What the first run left on disk (the directory, the thumbnails, the default icons) does
  not change what the second one writes, and the host of the second cycle is free in
  everything else. The condition on the discovery is needed: the loop keeps the order of
  \<open>findFiles\<close>, and the discovery leaves out \<open>node_modules\<close> only.
\<close>

theorem regeneration_idempotent_same_discovery:
  "configuration h' = configuration h \<and> cwd h' = cwd h \<and> sharp_resize h' = sharp_resize h \<and>
   writeFileSync_outcome h' = writeFileSync_outcome h \<and> findImageFiles h' = findImageFiles h \<longrightarrow>
   (generateIconTheme h g w = (w1, Inr t) \<longrightarrow>
      snd (generateIconTheme h' g w1) = Inr t \<and>
      files w1 (iconThemePath g) = Some (JSON_stringify (json_of_icon_theme t)) \<and>
      files (fst (generateIconTheme h' g w1)) (iconThemePath g) = files w1 (iconThemePath g)) \<and>
   (generateIconTheme_part000 h g w = (w1', Inr t') \<longrightarrow>
      snd (generateIconTheme_part000 h' g w1') = Inr t' \<and>
      files w1' (iconThemePath g) = Some (JSON_stringify (json_of_icon_maps t')) \<and>
      files (fst (generateIconTheme_part000 h' g w1')) (iconThemePath g) = files w1' (iconThemePath g))"
proof (intro conjI impI)
  assume s: "configuration h' = configuration h \<and> cwd h' = cwd h \<and> sharp_resize h' = sharp_resize h \<and>
   writeFileSync_outcome h' = writeFileSync_outcome h \<and> findImageFiles h' = findImageFiles h"
  assume a: "generateIconTheme h g w = (w1, Inr t)"
  note r = generateIconTheme_Inr [OF a]
  from s r(2) have o: "writeFileSync_outcome h' = WriteCompletes" by simp
  have "fst (assemble h' g w1) = fst (assemble h g w)"
    using s by (intro assemble_same_inputs) simp_all
  moreover have "iconTheme_of h' (fst (assemble h g w)) = iconTheme_of h (fst (assemble h g w))"
    using s by (intro iconTheme_of_same_inputs) simp
  ultimately have t: "t = iconTheme_of h' (fst (assemble h' g w1))"
    using r(1) by simp
  show "snd (generateIconTheme h' g w1) = Inr t"
    using generateIconTheme_completes(1) [OF r(4) o] t by simp
  show f: "files w1 (iconThemePath g) = Some (JSON_stringify (json_of_icon_theme t))"
    by (rule r(3))
  show "files (fst (generateIconTheme h' g w1)) (iconThemePath g) = files w1 (iconThemePath g)"
    using generateIconTheme_completes(2) [OF r(4) o] t f by simp
next
  assume s: "configuration h' = configuration h \<and> cwd h' = cwd h \<and> sharp_resize h' = sharp_resize h \<and>
   writeFileSync_outcome h' = writeFileSync_outcome h \<and> findImageFiles h' = findImageFiles h"
  assume a: "generateIconTheme_part000 h g w = (w1', Inr t')"
  note r = part000_Inr [OF a]
  from s r(2) have o: "writeFileSync_outcome h' = WriteCompletes" by simp
  have "fst (assemble h' g w1') = fst (assemble h g w)"
    using s by (intro assemble_same_inputs) simp_all
  then have t: "t' = fst (assemble h' g w1')"
    using r(1) by simp
  show "snd (generateIconTheme_part000 h' g w1') = Inr t'"
    using part000_completes(1) [OF r(4) o] t by simp
  show f: "files w1' (iconThemePath g) = Some (JSON_stringify (json_of_icon_maps t'))"
    by (rule r(3))
  show "files (fst (generateIconTheme_part000 h' g w1')) (iconThemePath g) = files w1' (iconThemePath g)"
    using part000_completes(2) [OF r(4) o] t f by simp
qed

text \<open>
  The theorem at a workspace with the two images \<open>/w/dir1/x.png\<close> and
  \<open>/w/dir2/x.png\<close>, of one base name, on an empty disk; the host of the second cycle is
  one whose \<open>mkdirSync\<close> would throw, which does not matter as the directory exists by
  then.
\<close>

theorem regeneration_idempotent_same_discovery_witness:
  "snd (generateIconTheme
          ((example_host [''/w/dir1/x.png'', ''/w/dir2/x.png''])\<lparr>mkdirSync_throws := True\<rparr>)
          example_globals
          (fst (generateIconTheme (example_host [''/w/dir1/x.png'', ''/w/dir2/x.png''])
                  example_globals empty_world))) =
     Inr \<lparr>iconDefinitions =
            [(''_file'', ''./default-file.png''),
             (''_folder'', ''./default-folder.png''),
             (''_folder_open'', ''./default-folder-open.png''),
             (''img__w_dir1_x_png'', ''img__w_dir1_x_png.png''),
             (''img__w_dir2_x_png'', ''img__w_dir2_x_png.png'')],
          fileNames = [(''x.png'', ''img__w_dir2_x_png'')],
          theme_file = ''_file'', theme_folder = ''_folder'',
          theme_folderExpanded = ''_folder_open'',
          fileExtensions =
            [(''png'', ''_file''), (''jpg'', ''_file''), (''jpeg'', ''_file''), (''gif'', ''_file''),
             (''bmp'', ''_file''), (''ico'', ''_file''), (''svg'', ''_file''), (''webp'', ''_file'')]\<rparr> \<and>
   snd (generateIconTheme_part000
          ((example_host [''/w/dir1/x.png'', ''/w/dir2/x.png''])\<lparr>mkdirSync_throws := True\<rparr>)
          example_globals
          (fst (generateIconTheme_part000 (example_host [''/w/dir1/x.png'', ''/w/dir2/x.png''])
                  example_globals empty_world))) =
     Inr \<lparr>iconDefinitions =
            [(''img__w_dir1_x_png'', ''img__w_dir1_x_png.png''),
             (''img__w_dir2_x_png'', ''img__w_dir2_x_png.png'')],
          fileNames = [(''x.png'', ''img__w_dir2_x_png'')]\<rparr>"
proof -
  let ?h = "example_host [''/w/dir1/x.png'', ''/w/dir2/x.png'']"
  let ?h' = "?h\<lparr>mkdirSync_throws := True\<rparr>"
  let ?t = "\<lparr>iconDefinitions =
            [(''_file'', ''./default-file.png''),
             (''_folder'', ''./default-folder.png''),
             (''_folder_open'', ''./default-folder-open.png''),
             (''img__w_dir1_x_png'', ''img__w_dir1_x_png.png''),
             (''img__w_dir2_x_png'', ''img__w_dir2_x_png.png'')],
          fileNames = [(''x.png'', ''img__w_dir2_x_png'')],
          theme_file = ''_file'', theme_folder = ''_folder'',
          theme_folderExpanded = ''_folder_open'',
          fileExtensions =
            [(''png'', ''_file''), (''jpg'', ''_file''), (''jpeg'', ''_file''), (''gif'', ''_file''),
             (''bmp'', ''_file''), (''ico'', ''_file''), (''svg'', ''_file''), (''webp'', ''_file'')]\<rparr>"
  let ?t' = "\<lparr>iconDefinitions =
            [(''img__w_dir1_x_png'', ''img__w_dir1_x_png.png''),
             (''img__w_dir2_x_png'', ''img__w_dir2_x_png.png'')],
          fileNames = [(''x.png'', ''img__w_dir2_x_png'')]\<rparr>"
  have hy: "configuration ?h' = configuration ?h \<and> cwd ?h' = cwd ?h \<and>
      sharp_resize ?h' = sharp_resize ?h \<and>
      writeFileSync_outcome ?h' = writeFileSync_outcome ?h \<and> findImageFiles ?h' = findImageFiles ?h"
    by (simp add: findImageFiles_def)
  have s: "snd (generateIconTheme ?h example_globals empty_world) = Inr ?t"
    by code_simp
  have s': "snd (generateIconTheme_part000 ?h example_globals empty_world) = Inr ?t'"
    by code_simp
  note th = regeneration_idempotent_same_discovery [of ?h' ?h example_globals empty_world
      "fst (generateIconTheme ?h example_globals empty_world)" ?t
      "fst (generateIconTheme_part000 ?h example_globals empty_world)" ?t', THEN mp, OF hy]
  note r1 = th [THEN conjunct1, THEN mp, OF pair_with_fst [OF s], THEN conjunct1]
  note r2 = th [THEN conjunct2, THEN mp, OF pair_with_fst [OF s'], THEN conjunct1]
  from r1 r2 show ?thesis by (rule conjI)
qed

text \<open>
  C6 as stated fails. The claim asks for no change of the file system and of the settings
  between the two runs, and says nothing of the answer of the discovery. With the files
  \<open>/w/dir1/x.png\<close> and \<open>/w/dir2/x.png\<close> discovered in one order by the first run and in
  the other order by the second, the same set of files, the second run leaves another text
  in the descriptor file, in both revisions. And when the artifacts directory lies inside
  the workspace, the second run discovers the thumbnail \<open>/e/out/icons/img__e_a_png.png\<close>
  that the first run wrote for \<open>/e/a.png\<close>, and its descriptor differs from the first.
\<close>

theorem second_run_other_order_differs:
  "set (findImageFiles (example_host [''/w/dir2/x.png'', ''/w/dir1/x.png''])) =
     set (findImageFiles (example_host [''/w/dir1/x.png'', ''/w/dir2/x.png''])) \<and>
   files (fst (generateIconTheme (example_host [''/w/dir2/x.png'', ''/w/dir1/x.png'']) example_globals
       (fst (generateIconTheme (example_host [''/w/dir1/x.png'', ''/w/dir2/x.png'']) example_globals
          empty_world)))) (iconThemePath example_globals) \<noteq>
   files (fst (generateIconTheme (example_host [''/w/dir1/x.png'', ''/w/dir2/x.png'']) example_globals
          empty_world)) (iconThemePath example_globals) \<and>
   files (fst (generateIconTheme_part000 (example_host [''/w/dir2/x.png'', ''/w/dir1/x.png'']) example_globals
       (fst (generateIconTheme_part000 (example_host [''/w/dir1/x.png'', ''/w/dir2/x.png'']) example_globals
          empty_world)))) (iconThemePath example_globals) \<noteq>
   files (fst (generateIconTheme_part000 (example_host [''/w/dir1/x.png'', ''/w/dir2/x.png'']) example_globals
          empty_world)) (iconThemePath example_globals) \<and>
   files (fst (generateIconTheme (example_host [''/e/a.png'']) example_globals empty_world))
     ''/e/out/icons/img__e_a_png.png'' = Some ''PNG'' \<and>
   files (fst (generateIconTheme (example_host [''/e/a.png'', ''/e/out/icons/img__e_a_png.png''])
       example_globals
       (fst (generateIconTheme (example_host [''/e/a.png'']) example_globals empty_world))))
     (iconThemePath example_globals) \<noteq>
   files (fst (generateIconTheme (example_host [''/e/a.png'']) example_globals empty_world))
     (iconThemePath example_globals)"
proof (intro conjI)
  let ?h1 = "example_host [''/w/dir1/x.png'', ''/w/dir2/x.png'']"
  let ?h2 = "example_host [''/w/dir2/x.png'', ''/w/dir1/x.png'']"
  let ?h3 = "example_host [''/e/a.png'']"
  let ?h4 = "example_host [''/e/a.png'', ''/e/out/icons/img__e_a_png.png'']"
  let ?g = example_globals
  show "set (findImageFiles ?h2) = set (findImageFiles ?h1)"
    by (simp add: findImageFiles_def example_host_def insert_commute)
  have s1: "snd (generateIconTheme ?h1 ?g empty_world) =
      Inr (iconTheme_of ?h1 (fst (assemble ?h1 ?g empty_world)))"
    by code_simp
  have d1: "JSON_stringify (json_of_icon_theme (iconTheme_of ?h2 (fst (assemble ?h2 ?g empty_world)))) \<noteq>
      JSON_stringify (json_of_icon_theme (iconTheme_of ?h1 (fst (assemble ?h1 ?g empty_world))))"
    by code_simp
  show "files (fst (generateIconTheme ?h2 ?g (fst (generateIconTheme ?h1 ?g empty_world))))
          (iconThemePath ?g) \<noteq>
        files (fst (generateIconTheme ?h1 ?g empty_world)) (iconThemePath ?g)"
    by (rule Some_differ [OF second_run_descriptor [OF s1 example_host_write_completes] d1])
  have s2: "snd (generateIconTheme_part000 ?h1 ?g empty_world) = Inr (fst (assemble ?h1 ?g empty_world))"
    by code_simp
  have d2: "JSON_stringify (json_of_icon_maps (fst (assemble ?h2 ?g empty_world))) \<noteq>
      JSON_stringify (json_of_icon_maps (fst (assemble ?h1 ?g empty_world)))"
    by code_simp
  show "files (fst (generateIconTheme_part000 ?h2 ?g (fst (generateIconTheme_part000 ?h1 ?g empty_world))))
          (iconThemePath ?g) \<noteq>
        files (fst (generateIconTheme_part000 ?h1 ?g empty_world)) (iconThemePath ?g)"
    by (rule Some_differ [OF second_run_descriptor_part000 [OF s2 example_host_write_completes] d2])
  show "files (fst (generateIconTheme ?h3 ?g empty_world)) ''/e/out/icons/img__e_a_png.png'' = Some ''PNG''"
    by code_simp
  have s3: "snd (generateIconTheme ?h3 ?g empty_world) =
      Inr (iconTheme_of ?h3 (fst (assemble ?h3 ?g empty_world)))"
    by code_simp
  have d3: "JSON_stringify (json_of_icon_theme (iconTheme_of ?h4 (fst (assemble ?h4 ?g empty_world)))) \<noteq>
      JSON_stringify (json_of_icon_theme (iconTheme_of ?h3 (fst (assemble ?h3 ?g empty_world))))"
    by code_simp
  show "files (fst (generateIconTheme ?h4 ?g (fst (generateIconTheme ?h3 ?g empty_world))))
          (iconThemePath ?g) \<noteq>
        files (fst (generateIconTheme ?h3 ?g empty_world)) (iconThemePath ?g)"
    by (rule Some_differ [OF second_run_descriptor [OF s3 example_host_write_completes] d3])
qed

text \<open>
  C8 (as amended). The configured icon size is used as it is: \<open>getIconSize\<close> returns the
  configured value, whatever it is, and 16 when there is none; every call of \<open>sharp\<close>
  that a cycle makes, for a thumbnail or for a default icon, uses that value; and every
  discovered file with a supported extension is rendered at that size. Nothing clamps the
  value to the range 8 to 32.
\<close>

theorem icon_size_used_as_configured:
  "getIconSize (c\<lparr>cfg_iconSize := Some v\<rparr>) = v \<and>
   getIconSize (c\<lparr>cfg_iconSize := None\<rparr>) = 16 \<and>
   list_all (\<lambda>x. call_size x = getIconSize (configuration h))
     (drop (length (sharp_calls w)) (sharp_calls (fst (generateIconTheme h g w)))) \<and>
   list_all (\<lambda>x. call_size x = getIconSize (configuration h))
     (drop (length (sharp_calls w)) (sharp_calls (fst (generateIconTheme_part000 h g w)))) \<and>
   (ensure_output_dir h g w = Inr w0 \<longrightarrow>
      sharp_calls (fst (generateIconTheme_part000 h g w)) =
        sharp_calls w @
          map (\<lambda>p. Resize p (getIconSize (configuration h)) (thumbnailPath_of g (generateIconId p)))
            (filter (\<lambda>p. file_ext p \<in> set (getSupportedExtensions (configuration h)))
               (findImageFiles h)))"
proof (intro conjI impI)
  show "getIconSize (c\<lparr>cfg_iconSize := Some v\<rparr>) = v"
    by (simp add: getIconSize_def)
  show "getIconSize (c\<lparr>cfg_iconSize := None\<rparr>) = 16"
    by (simp add: getIconSize_def)
  from generateIconTheme_new_calls [of h g w]
  show "list_all (\<lambda>x. call_size x = getIconSize (configuration h))
     (drop (length (sharp_calls w)) (sharp_calls (fst (generateIconTheme h g w))))"
    by auto
  from part000_new_calls [of h g w]
  show "list_all (\<lambda>x. call_size x = getIconSize (configuration h))
     (drop (length (sharp_calls w)) (sharp_calls (fst (generateIconTheme_part000 h g w))))"
    by auto
  assume "ensure_output_dir h g w = Inr w0"
  then show "sharp_calls (fst (generateIconTheme_part000 h g w)) =
        sharp_calls w @
          map (\<lambda>p. Resize p (getIconSize (configuration h)) (thumbnailPath_of g (generateIconId p)))
            (filter (\<lambda>p. file_ext p \<in> set (getSupportedExtensions (configuration h)))
               (findImageFiles h))"
    by (simp add: part000_calls)
qed

text \<open>The theorem with the size set to 24, for the one image \<open>/w/a.png\<close>.\<close>

theorem icon_size_used_as_configured_witness:
  "sharp_calls (fst (generateIconTheme_part000 (example_host_sized 24 [''/w/a.png''])
      example_globals empty_world)) =
     [Resize ''/w/a.png'' 24 ''/e/out/icons/img__w_a_png.png'']"
proof -
  let ?h = "example_host_sized 24 [''/w/a.png'']"
  have e: "ensure_output_dir ?h example_globals empty_world =
             Inr (mkdirSync empty_world (outputIconsDir example_globals))"
    by (simp add: ensure_output_dir_def existsSync_def empty_world_def example_host_sized_def
        example_host_def)
  have v: "sharp_calls empty_world @
          map (\<lambda>p. Resize p (getIconSize (configuration ?h))
                     (thumbnailPath_of example_globals (generateIconId p)))
            (filter (\<lambda>p. file_ext p \<in> set (getSupportedExtensions (configuration ?h)))
               (findImageFiles ?h)) =
          [Resize ''/w/a.png'' 24 ''/e/out/icons/img__w_a_png.png'']"
    by code_simp
  from icon_size_used_as_configured [of _ _ ?h empty_world example_globals
      "mkdirSync empty_world (outputIconsDir example_globals)",
      THEN conjunct2, THEN conjunct2, THEN conjunct2, THEN conjunct2, THEN mp, OF e]
  show ?thesis unfolding v .
qed

text \<open>
  C8 as stated fails: with \<open>iconSize\<close> set to 64, outside the range 8 to 32, the
  thumbnail and the three default icons are made at size 64.
\<close>

theorem icon_size_64_not_clamped:
  "getIconSize (configuration (example_host_sized 64 [''/w/a.png''])) = 64 \<and>
   sharp_calls (fst (generateIconTheme (example_host_sized 64 [''/w/a.png''])
      example_globals empty_world)) =
     [Resize ''/w/a.png'' 64 ''/e/out/icons/img__w_a_png.png'',
      Create 64 ''/e/out/icons/default-file.png'',
      Create 64 ''/e/out/icons/default-folder.png'',
      Create 64 ''/e/out/icons/default-folder-open.png'']"
  by code_simp

text \<open>
  C4 (as amended). The loop takes the files in the order the discovery returned them;
  nothing sorts them. The entries of \<open>iconDefinitions\<close> stand in the order in which
  their files were first discovered, and \<open>fileNames\<close> gives a file name the icon of
  the last discovered file of that name that was rendered. For a fixed workspace state (the same files, settings
  and render outcomes), two discovery orders give the same \<open>iconDefinitions\<close> as a
  mapping, and the same \<open>fileNames\<close> as a mapping when no two rendered files share a
  base name.
\<close>

theorem assembly_follows_discovery_order:
  "map fst (iconDefinitions (fst (assemble h g w))) =
     rev (remdups (rev (map generateIconId
       (filter (renders h g (getSupportedExtensions (configuration h))) (findImageFiles h))))) \<and>
   map_of (fileNames (fst (assemble h g w))) n =
     (if n = ''__proto__'' \<or> filter (\<lambda>p. path_basename p = n)
            (filter (renders h g (getSupportedExtensions (configuration h))) (findImageFiles h)) = []
      then None
      else Some (generateIconId (last (filter (\<lambda>p. path_basename p = n)
            (filter (renders h g (getSupportedExtensions (configuration h))) (findImageFiles h)))))) \<and>
   (set (findImageFiles (h\<lparr>findFiles := f\<rparr>)) = set (findImageFiles h) \<longrightarrow>
      map_of (iconDefinitions (fst (assemble (h\<lparr>findFiles := f\<rparr>) g w'))) =
        map_of (iconDefinitions (fst (assemble h g w))) \<and>
      (inj_on path_basename (rendered_files h g) \<longrightarrow>
         map_of (fileNames (fst (assemble (h\<lparr>findFiles := f\<rparr>) g w'))) =
           map_of (fileNames (fst (assemble h g w)))))"
proof (intro conjI impI)
  show "map fst (iconDefinitions (fst (assemble h g w))) =
     rev (remdups (rev (map generateIconId
       (filter (renders h g (getSupportedExtensions (configuration h))) (findImageFiles h)))))"
    by (rule assemble_order)
next
  show "map_of (fileNames (fst (assemble h g w))) n =
     (if n = ''__proto__'' \<or> filter (\<lambda>p. path_basename p = n)
            (filter (renders h g (getSupportedExtensions (configuration h))) (findImageFiles h)) = []
      then None
      else Some (generateIconId (last (filter (\<lambda>p. path_basename p = n)
            (filter (renders h g (getSupportedExtensions (configuration h))) (findImageFiles h))))))"
    by (rule assemble_fileNames_map_of)
next
  assume s: "set (findImageFiles (h\<lparr>findFiles := f\<rparr>)) = set (findImageFiles h)"
  show "map_of (iconDefinitions (fst (assemble (h\<lparr>findFiles := f\<rparr>) g w'))) =
        map_of (iconDefinitions (fst (assemble h g w)))"
    by (rule ext)
       (simp add: assemble_eq iconDefinitions_map_of s renders_findFiles relativePath_of_def)
next
  assume s: "set (findImageFiles (h\<lparr>findFiles := f\<rparr>)) = set (findImageFiles h)"
    and i: "inj_on path_basename (rendered_files h g)"
  let ?r = "renders h g (getSupportedExtensions (configuration h))"
  let ?xs = "filter ?r (findImageFiles (h\<lparr>findFiles := f\<rparr>))"
  let ?ys = "filter ?r (findImageFiles h)"
  have sxy: "set ?xs = set ?ys" using s by simp
  have inj: "inj_on path_basename (set ?xs)"
    using i sxy by (simp add: rendered_files_def)
  show "map_of (fileNames (fst (assemble (h\<lparr>findFiles := f\<rparr>) g w'))) =
           map_of (fileNames (fst (assemble h g w)))"
  proof (rule ext)
    fix n
    note u = last_filter_unique [OF inj sxy, of n]
    show "map_of (fileNames (fst (assemble (h\<lparr>findFiles := f\<rparr>) g w'))) n =
           map_of (fileNames (fst (assemble h g w))) n"
      using u by (auto simp: assemble_fileNames_map_of renders_findFiles)
  qed
qed

text \<open>
  The theorem for the files \<open>/w/dir1/x.png\<close> and \<open>/w/dir2/y.png\<close>, discovered in
  one order and in the other.
\<close>

theorem assembly_follows_discovery_order_witness:
  "map_of (fileNames (fst (assemble
      ((example_host [''/w/dir1/x.png'', ''/w/dir2/y.png''])
         \<lparr>findFiles := (\<lambda>pattern exclude. Some [''/w/dir2/y.png'', ''/w/dir1/x.png''])\<rparr>)
      example_globals empty_world))) =
   map_of (fileNames (fst (assemble (example_host [''/w/dir1/x.png'', ''/w/dir2/y.png''])
      example_globals empty_world)))"
proof -
  let ?h = "example_host [''/w/dir1/x.png'', ''/w/dir2/y.png'']"
  let ?f = "\<lambda>pattern exclude. Some [''/w/dir2/y.png'', ''/w/dir1/x.png'']"
  have s: "set (findImageFiles (?h\<lparr>findFiles := ?f\<rparr>)) = set (findImageFiles ?h)"
    by (auto simp: findImageFiles_def example_host_def)
  have b: "path_basename ''/w/dir1/x.png'' \<noteq> path_basename ''/w/dir2/y.png''"
    by code_simp
  have "rendered_files ?h example_globals \<subseteq> {''/w/dir1/x.png'', ''/w/dir2/y.png''}"
    by (auto simp: rendered_files_def findImageFiles_def example_host_def)
  moreover have "inj_on path_basename {''/w/dir1/x.png'', ''/w/dir2/y.png''}"
    using b by (simp add: inj_on_def)
  ultimately have i: "inj_on path_basename (rendered_files ?h example_globals)"
    by (rule inj_on_subset [rotated])
  from assembly_follows_discovery_order [of ?h example_globals empty_world _ ?f empty_world,
      THEN conjunct2, THEN conjunct2, THEN mp, OF s, THEN conjunct2, THEN mp, OF i]
  show ?thesis .
qed

text \<open>
  C4 as stated fails: the same two files \<open>/w/dir1/x.png\<close> and \<open>/w/dir2/x.png\<close>,
  discovered in one order and in the other, give descriptors that differ in the order of
  \<open>iconDefinitions\<close> and in the icon that \<open>fileNames\<close> gives to \<open>x.png\<close>: the file
  discovered last wins.
\<close>

theorem discovery_order_changes_descriptor:
  "fst (assemble (example_host [''/w/dir1/x.png'', ''/w/dir2/x.png'']) example_globals empty_world) =
     \<lparr>iconDefinitions =
        [(''img__w_dir1_x_png'', ''img__w_dir1_x_png.png''),
         (''img__w_dir2_x_png'', ''img__w_dir2_x_png.png'')],
      fileNames = [(''x.png'', ''img__w_dir2_x_png'')]\<rparr> \<and>
   fst (assemble (example_host [''/w/dir2/x.png'', ''/w/dir1/x.png'']) example_globals empty_world) =
     \<lparr>iconDefinitions =
        [(''img__w_dir2_x_png'', ''img__w_dir2_x_png.png''),
         (''img__w_dir1_x_png'', ''img__w_dir1_x_png.png'')],
      fileNames = [(''x.png'', ''img__w_dir1_x_png'')]\<rparr> \<and>
   JSON_stringify (json_of_icon_maps
     (fst (assemble (example_host [''/w/dir1/x.png'', ''/w/dir2/x.png'']) example_globals empty_world)))
   \<noteq> JSON_stringify (json_of_icon_maps
     (fst (assemble (example_host [''/w/dir2/x.png'', ''/w/dir1/x.png'']) example_globals empty_world)))"
  by code_simp

text \<open>
  C9 (as amended). Regeneration never deletes a file: a file that exists before any
  sequence of cycles exists after it, so the thumbnail of a source image that has left
  the workspace stays in the artifacts directory. A cycle leaves every file as it was
  except the descriptor, the thumbnails of the files it renders and, in
  \<open>src/extension.ts\<close>, the three default icons, which it creates only where no file
  of that name exists. The descriptor of a cycle has no entry for an identifier that no
  discovered file has.
\<close>

theorem regeneration_keeps_files:
  "(files w p \<noteq> None \<longrightarrow>
      files (run_cycles g hs w) p \<noteq> None \<and> files (run_cycles_part000 g hs w) p \<noteq> None) \<and>
   (files w p \<noteq> None \<and> p \<noteq> iconThemePath g \<and> p \<notin> thumbnail_paths h g \<longrightarrow>
      files (fst (generateIconTheme h g w)) p = files w p) \<and>
   (p \<noteq> iconThemePath g \<and> p \<notin> thumbnail_paths h g \<and> p \<notin> fst ` set (default_icon_files g) \<longrightarrow>
      files (fst (generateIconTheme h g w)) p = files w p) \<and>
   (p \<noteq> iconThemePath g \<and> p \<notin> thumbnail_paths h g \<longrightarrow>
      files (fst (generateIconTheme_part000 h g w)) p = files w p) \<and>
   (generateIconId src \<notin> generateIconId ` set (findImageFiles h) \<longrightarrow>
      (snd (generateIconTheme h g w) = Inr t \<longrightarrow> generateIconId src \<notin> fst ` set (iconDefinitions t)) \<and>
      (snd (generateIconTheme_part000 h g w) = Inr t' \<longrightarrow>
         generateIconId src \<notin> fst ` set (iconDefinitions t')))"
proof (intro conjI impI)
  assume "files w p \<noteq> None"
  then show "files (run_cycles g hs w) p \<noteq> None" "files (run_cycles_part000 g hs w) p \<noteq> None"
    by (rule run_cycles_files_exist, rule run_cycles_part000_files_exist)
next
  assume "files w p \<noteq> None \<and> p \<noteq> iconThemePath g \<and> p \<notin> thumbnail_paths h g"
  then show "files (fst (generateIconTheme h g w)) p = files w p"
    by (intro generateIconTheme_files_keep) simp_all
next
  assume "p \<noteq> iconThemePath g \<and> p \<notin> thumbnail_paths h g \<and> p \<notin> fst ` set (default_icon_files g)"
  then show "files (fst (generateIconTheme h g w)) p = files w p"
    by (intro generateIconTheme_files_frame) simp_all
next
  assume "p \<noteq> iconThemePath g \<and> p \<notin> thumbnail_paths h g"
  then show "files (fst (generateIconTheme_part000 h g w)) p = files w p"
    by (intro part000_files_frame) simp_all
next
  assume n: "generateIconId src \<notin> generateIconId ` set (findImageFiles h)"
  then have n': "generateIconId src \<notin> generateIconId ` rendered_files h g"
    using rendered_files_subset [of h g] by blast
  {
    assume "snd (generateIconTheme h g w) = Inr t"
    then show "generateIconId src \<notin> fst ` set (iconDefinitions t)"
      using n' generateIconId_not_default [of src] by (simp add: generateIconTheme_keys)
  }
  {
    assume "snd (generateIconTheme_part000 h g w) = Inr t'"
    then show "generateIconId src \<notin> fst ` set (iconDefinitions t')"
      using n' by (simp add: part000_keys)
  }
qed

text \<open>
  The theorem on a disk that holds the thumbnail of \<open>/w/old.png\<close>, made earlier, for
  two cycles in which the workspace holds \<open>/w/a.png\<close> only.
\<close>

theorem regeneration_keeps_files_witness:
  "files (run_cycles example_globals [example_host [''/w/a.png''], example_host [''/w/a.png'']]
            old_descriptor_world) ''/e/out/icons/img__w_old_png.png'' \<noteq> None \<and>
   files (fst (generateIconTheme (example_host [''/w/a.png'']) example_globals old_descriptor_world))
     ''/e/out/icons/img__w_old_png.png'' = Some ''OLD'' \<and>
   files (fst (generateIconTheme (example_host [''/w/a.png'']) example_globals old_descriptor_world))
     ''/e/out/icons/other.txt'' = None \<and>
   files (fst (generateIconTheme_part000 (example_host [''/w/a.png'']) example_globals old_descriptor_world))
     ''/e/out/icons/img__w_old_png.png'' = Some ''OLD'' \<and>
   ''img__w_old_png'' \<notin> fst ` set (iconDefinitions
      \<lparr>iconDefinitions = [(''img__w_a_png'', ''img__w_a_png.png'')],
        fileNames = [(''a.png'', ''img__w_a_png'')]\<rparr>)"
proof -
  let ?h = "example_host [''/w/a.png'']"
  let ?p = "''/e/out/icons/img__w_old_png.png''"
  let ?q = "''/e/out/icons/other.txt''"
  let ?t' = "\<lparr>iconDefinitions = [(''img__w_a_png'', ''img__w_a_png.png'')],
        fileNames = [(''a.png'', ''img__w_a_png'')]\<rparr>"
  have old: "files old_descriptor_world ?p = Some ''OLD''"
    by (simp add: old_descriptor_world_def)
  then have ex: "files old_descriptor_world ?p \<noteq> None" by simp
  have none: "files old_descriptor_world ?q = None"
    by (simp add: old_descriptor_world_def)
  have g: "iconThemePath example_globals = ''/e/out/icons/iconpreview-icon-theme.json''"
    by code_simp
  have th: "thumbnailPath_of example_globals (generateIconId ''/w/a.png'') = ''/e/out/icons/img__w_a_png.png''"
    by code_simp
  have "thumbnail_paths ?h example_globals \<subseteq> {''/e/out/icons/img__w_a_png.png''}"
    by (auto simp: thumbnail_paths_def rendered_files_def findImageFiles_def example_host_def th)
  then have np: "?p \<notin> thumbnail_paths ?h example_globals"
    and nq: "?q \<notin> thumbnail_paths ?h example_globals"
    by auto
  have d: "fst ` set (default_icon_files example_globals) =
      {''/e/out/icons/default-file.png'', ''/e/out/icons/default-folder.png'',
       ''/e/out/icons/default-folder-open.png''}"
    by code_simp
  have ido: "generateIconId ''/w/old.png'' = ''img__w_old_png''"
    and ida: "generateIconId ''/w/a.png'' = ''img__w_a_png''"
    by code_simp+
  have nid: "generateIconId ''/w/old.png'' \<notin> generateIconId ` set (findImageFiles ?h)"
    by (simp add: findImageFiles_def example_host_def ido ida)
  have s': "snd (generateIconTheme_part000 ?h example_globals old_descriptor_world) = Inr ?t'"
    by code_simp
  note r = regeneration_keeps_files [of old_descriptor_world _ example_globals _ ?h]
  have c1: "files (run_cycles example_globals [?h, ?h] old_descriptor_world) ?p \<noteq> None"
    using r [of ?p "[?h, ?h]", THEN conjunct1] ex by blast
  have c2: "files (fst (generateIconTheme ?h example_globals old_descriptor_world)) ?p = Some ''OLD''"
    using r [of ?p, THEN conjunct2, THEN conjunct1] ex np old by (simp add: g)
  have c3: "files (fst (generateIconTheme ?h example_globals old_descriptor_world)) ?q = None"
    using r [of ?q, THEN conjunct2, THEN conjunct2, THEN conjunct1] nq none by (simp add: g d)
  have c4: "files (fst (generateIconTheme_part000 ?h example_globals old_descriptor_world)) ?p
      = Some ''OLD''"
    using r [of ?p, THEN conjunct2, THEN conjunct2, THEN conjunct2, THEN conjunct1] np old
    by (simp add: g)
  have c5: "''img__w_old_png'' \<notin> fst ` set (iconDefinitions ?t')"
    using r [of _ _ "''/w/old.png''" _ ?t', THEN conjunct2, THEN conjunct2, THEN conjunct2,
        THEN conjunct2, THEN mp, OF nid, THEN conjunct2, THEN mp, OF s']
    unfolding ido .
  from c1 c2 c3 c4 c5 show ?thesis by (intro conjI)
qed

text \<open>
  C9 as stated fails in \<open>src/extension.ts\<close>: a cycle on an empty disk, with no image in
  the workspace, creates \<open>default-file.png\<close>, which is neither the descriptor nor a
  thumbnail of the cycle.
\<close>

theorem cycle_creates_default_icon:
  "files empty_world ''/e/out/icons/default-file.png'' = None \<and>
   files (fst (generateIconTheme (example_host []) example_globals empty_world))
     ''/e/out/icons/default-file.png'' = Some ''PNG'' \<and>
   ''/e/out/icons/default-file.png'' \<noteq> iconThemePath example_globals \<and>
   thumbnail_paths (example_host []) example_globals = {}"
proof (intro conjI)
  show "files empty_world ''/e/out/icons/default-file.png'' = None"
    by (simp add: empty_world_def)
  show "files (fst (generateIconTheme (example_host []) example_globals empty_world))
     ''/e/out/icons/default-file.png'' = Some ''PNG''"
    by code_simp
  show "''/e/out/icons/default-file.png'' \<noteq> iconThemePath example_globals"
    by code_simp
  show "thumbnail_paths (example_host []) example_globals = {}"
    by (simp add: thumbnail_paths_def rendered_files_def findImageFiles_def example_host_def)
qed

text \<open>
  C2 (as amended). The descriptor is written in place: one \<open>fs.writeFileSync\<close> on the
  canonical path, after the thumbnails, with no temporary file and no rename. With the
  output directory in place: a write that completes leaves the full text of the new
  descriptor; a write that fails after \<open>n\<close> bytes ends the cycle with an error and
  leaves the first \<open>n\<close> bytes of the new text; a write that fails at the open ends the
  cycle with an error and leaves the descriptor as it was (when no thumbnail of the cycle
  has the descriptor's path). A cycle that ends with the error of \<open>mkdirSync\<close> leaves
  the disk as it was. No file other than the descriptor, the thumbnails and the default
  icons changes. The second half states the same for the other revision.
\<close>

theorem descriptor_written_in_place:
  "((snd (generateIconTheme h g w) = Inl MkdirSyncError \<longrightarrow> fst (generateIconTheme h g w) = w) \<and>
    (p \<noteq> iconThemePath g \<and> p \<notin> thumbnail_paths h g \<and> p \<notin> fst ` set (default_icon_files g) \<longrightarrow>
       files (fst (generateIconTheme h g w)) p = files w p) \<and>
    (ensure_output_dir h g w = Inr w0 \<longrightarrow>
       (writeFileSync_outcome h = WriteCompletes \<longrightarrow>
          snd (generateIconTheme h g w) = Inr (iconTheme_of h (fst (assemble h g w))) \<and>
          files (fst (generateIconTheme h g w)) (iconThemePath g) =
            Some (JSON_stringify (json_of_icon_theme (iconTheme_of h (fst (assemble h g w)))))) \<and>
       (writeFileSync_outcome h = WriteFailsAfter n \<longrightarrow>
          snd (generateIconTheme h g w) = Inl WriteFileSyncError \<and>
          files (fst (generateIconTheme h g w)) (iconThemePath g) =
            Some (take n (JSON_stringify (json_of_icon_theme (iconTheme_of h (fst (assemble h g w))))))) \<and>
       (writeFileSync_outcome h = WriteFailsAtOpen \<and> iconThemePath g \<notin> thumbnail_paths h g \<longrightarrow>
          snd (generateIconTheme h g w) = Inl WriteFileSyncError \<and>
          files (fst (generateIconTheme h g w)) (iconThemePath g) = files w (iconThemePath g)))) \<and>
   ((snd (generateIconTheme_part000 h g w) = Inl MkdirSyncError \<longrightarrow>
       fst (generateIconTheme_part000 h g w) = w) \<and>
    (p \<noteq> iconThemePath g \<and> p \<notin> thumbnail_paths h g \<longrightarrow>
       files (fst (generateIconTheme_part000 h g w)) p = files w p) \<and>
    (ensure_output_dir h g w = Inr w0 \<longrightarrow>
       (writeFileSync_outcome h = WriteCompletes \<longrightarrow>
          snd (generateIconTheme_part000 h g w) = Inr (fst (assemble h g w)) \<and>
          files (fst (generateIconTheme_part000 h g w)) (iconThemePath g) =
            Some (JSON_stringify (json_of_icon_maps (fst (assemble h g w))))) \<and>
       (writeFileSync_outcome h = WriteFailsAfter n \<longrightarrow>
          snd (generateIconTheme_part000 h g w) = Inl WriteFileSyncError \<and>
          files (fst (generateIconTheme_part000 h g w)) (iconThemePath g) =
            Some (take n (JSON_stringify (json_of_icon_maps (fst (assemble h g w)))))) \<and>
       (writeFileSync_outcome h = WriteFailsAtOpen \<and> iconThemePath g \<notin> thumbnail_paths h g \<longrightarrow>
          snd (generateIconTheme_part000 h g w) = Inl WriteFileSyncError \<and>
          files (fst (generateIconTheme_part000 h g w)) (iconThemePath g) = files w (iconThemePath g))))"
proof -
  have a1: "snd (generateIconTheme h g w) = Inl MkdirSyncError \<longrightarrow> fst (generateIconTheme h g w) = w"
    by (simp add: generateIconTheme_mkdir_error)
  have a2: "p \<noteq> iconThemePath g \<and> p \<notin> thumbnail_paths h g \<and> p \<notin> fst ` set (default_icon_files g) \<longrightarrow>
       files (fst (generateIconTheme h g w)) p = files w p"
    by (simp add: generateIconTheme_files_frame)
  have a3: "ensure_output_dir h g w = Inr w0 \<longrightarrow>
       (writeFileSync_outcome h = WriteCompletes \<longrightarrow>
          snd (generateIconTheme h g w) = Inr (iconTheme_of h (fst (assemble h g w))) \<and>
          files (fst (generateIconTheme h g w)) (iconThemePath g) =
            Some (JSON_stringify (json_of_icon_theme (iconTheme_of h (fst (assemble h g w)))))) \<and>
       (writeFileSync_outcome h = WriteFailsAfter n \<longrightarrow>
          snd (generateIconTheme h g w) = Inl WriteFileSyncError \<and>
          files (fst (generateIconTheme h g w)) (iconThemePath g) =
            Some (take n (JSON_stringify (json_of_icon_theme (iconTheme_of h (fst (assemble h g w))))))) \<and>
       (writeFileSync_outcome h = WriteFailsAtOpen \<and> iconThemePath g \<notin> thumbnail_paths h g \<longrightarrow>
          snd (generateIconTheme h g w) = Inl WriteFileSyncError \<and>
          files (fst (generateIconTheme h g w)) (iconThemePath g) = files w (iconThemePath g))"
  proof (intro impI conjI)
    assume e: "ensure_output_dir h g w = Inr w0"
    {
      assume o: "writeFileSync_outcome h = WriteCompletes"
      from generateIconTheme_write_completes [OF e o]
      show "snd (generateIconTheme h g w) = Inr (iconTheme_of h (fst (assemble h g w)))"
        and "files (fst (generateIconTheme h g w)) (iconThemePath g) =
            Some (JSON_stringify (json_of_icon_theme (iconTheme_of h (fst (assemble h g w)))))"
        by simp_all
    }
    {
      assume o: "writeFileSync_outcome h = WriteFailsAfter n"
      then have o': "writeFileSync_outcome h \<noteq> WriteCompletes" by simp
      from generateIconTheme_write_fails [OF e o'] o
      show "snd (generateIconTheme h g w) = Inl WriteFileSyncError"
        and "files (fst (generateIconTheme h g w)) (iconThemePath g) =
            Some (take n (JSON_stringify (json_of_icon_theme (iconTheme_of h (fst (assemble h g w))))))"
        by simp_all
    }
    {
      assume o: "writeFileSync_outcome h = WriteFailsAtOpen \<and> iconThemePath g \<notin> thumbnail_paths h g"
      then have o': "writeFileSync_outcome h \<noteq> WriteCompletes" by simp
      from generateIconTheme_write_fails [OF e o'] o descriptor_untouched_by_loop [OF e]
      show "snd (generateIconTheme h g w) = Inl WriteFileSyncError"
        and "files (fst (generateIconTheme h g w)) (iconThemePath g) = files w (iconThemePath g)"
        by simp_all
    }
  qed
  have b1: "snd (generateIconTheme_part000 h g w) = Inl MkdirSyncError \<longrightarrow>
       fst (generateIconTheme_part000 h g w) = w"
    by (simp add: part000_mkdir_error)
  have b2: "p \<noteq> iconThemePath g \<and> p \<notin> thumbnail_paths h g \<longrightarrow>
       files (fst (generateIconTheme_part000 h g w)) p = files w p"
    by (simp add: part000_files_frame)
  have b3: "ensure_output_dir h g w = Inr w0 \<longrightarrow>
       (writeFileSync_outcome h = WriteCompletes \<longrightarrow>
          snd (generateIconTheme_part000 h g w) = Inr (fst (assemble h g w)) \<and>
          files (fst (generateIconTheme_part000 h g w)) (iconThemePath g) =
            Some (JSON_stringify (json_of_icon_maps (fst (assemble h g w))))) \<and>
       (writeFileSync_outcome h = WriteFailsAfter n \<longrightarrow>
          snd (generateIconTheme_part000 h g w) = Inl WriteFileSyncError \<and>
          files (fst (generateIconTheme_part000 h g w)) (iconThemePath g) =
            Some (take n (JSON_stringify (json_of_icon_maps (fst (assemble h g w)))))) \<and>
       (writeFileSync_outcome h = WriteFailsAtOpen \<and> iconThemePath g \<notin> thumbnail_paths h g \<longrightarrow>
          snd (generateIconTheme_part000 h g w) = Inl WriteFileSyncError \<and>
          files (fst (generateIconTheme_part000 h g w)) (iconThemePath g) = files w (iconThemePath g))"
  proof (intro impI conjI)
    assume e: "ensure_output_dir h g w = Inr w0"
    {
      assume o: "writeFileSync_outcome h = WriteCompletes"
      from part000_write_completes [OF e o]
      show "snd (generateIconTheme_part000 h g w) = Inr (fst (assemble h g w))"
        and "files (fst (generateIconTheme_part000 h g w)) (iconThemePath g) =
            Some (JSON_stringify (json_of_icon_maps (fst (assemble h g w))))"
        by simp_all
    }
    {
      assume o: "writeFileSync_outcome h = WriteFailsAfter n"
      then have o': "writeFileSync_outcome h \<noteq> WriteCompletes" by simp
      from part000_write_fails [OF e o'] o
      show "snd (generateIconTheme_part000 h g w) = Inl WriteFileSyncError"
        and "files (fst (generateIconTheme_part000 h g w)) (iconThemePath g) =
            Some (take n (JSON_stringify (json_of_icon_maps (fst (assemble h g w)))))"
        by simp_all
    }
    {
      assume o: "writeFileSync_outcome h = WriteFailsAtOpen \<and> iconThemePath g \<notin> thumbnail_paths h g"
      then have o': "writeFileSync_outcome h \<noteq> WriteCompletes" by simp
      from part000_write_fails [OF e o'] o descriptor_untouched_by_loop [OF e]
      show "snd (generateIconTheme_part000 h g w) = Inl WriteFileSyncError"
        and "files (fst (generateIconTheme_part000 h g w)) (iconThemePath g) = files w (iconThemePath g)"
        by simp_all
    }
  qed
  from a1 a2 a3 b1 b2 b3 show ?thesis by (intro conjI)
qed


text \<open>
  The theorem on a disk that holds an earlier descriptor, for the one image \<open>/w/a.png\<close>:
  a write that fails at the open, one that fails after five bytes, one that completes;
  and on an empty disk with a \<open>mkdirSync\<close> that throws.
\<close>

theorem descriptor_written_in_place_witness:
  "files (fst (generateIconTheme (example_host_write WriteFailsAtOpen [''/w/a.png''])
            example_globals old_descriptor_world)) (iconThemePath example_globals) = Some ''{}'' \<and>
   snd (generateIconTheme (example_host_write (WriteFailsAfter 5) [''/w/a.png''])
            example_globals old_descriptor_world) = Inl WriteFileSyncError \<and>
   files (fst (generateIconTheme_part000 (example_host_write WriteCompletes [''/w/a.png''])
            example_globals old_descriptor_world)) (iconThemePath example_globals) =
     Some (JSON_stringify (json_of_icon_maps
       (fst (assemble (example_host_write WriteCompletes [''/w/a.png''])
               example_globals old_descriptor_world)))) \<and>
   fst (generateIconTheme ((example_host [])\<lparr>mkdirSync_throws := True\<rparr>) example_globals empty_world)
     = empty_world"
proof -
  let ?g = example_globals and ?w = old_descriptor_world
  have dir: "outputIconsDir ?g = ''/e/out/icons''"
    and thp: "iconThemePath ?g = ''/e/out/icons/iconpreview-icon-theme.json''"
    by code_simp+
  have e: "ensure_output_dir h ?g ?w = Inr ?w" for h
    by (simp add: ensure_output_dir_def existsSync_def dir old_descriptor_world_def)
  have o: "writeFileSync_outcome (example_host_write x fs) = x" for x fs
    by (simp add: example_host_write_def example_host_def)
  have th: "thumbnailPath_of ?g (generateIconId ''/w/a.png'') = ''/e/out/icons/img__w_a_png.png''"
    by code_simp
  have "thumbnail_paths (example_host_write WriteFailsAtOpen [''/w/a.png'']) ?g
          \<subseteq> {''/e/out/icons/img__w_a_png.png''}"
    by (auto simp: thumbnail_paths_def rendered_files_def findImageFiles_def
        example_host_write_def example_host_def th)
  then have n: "iconThemePath ?g \<notin> thumbnail_paths (example_host_write WriteFailsAtOpen [''/w/a.png'']) ?g"
    by (auto simp: thp)
  have old: "files ?w (iconThemePath ?g) = Some ''{}''"
    by (simp add: thp old_descriptor_world_def)
  have m: "snd (generateIconTheme ((example_host [])\<lparr>mkdirSync_throws := True\<rparr>) ?g empty_world)
      = Inl MkdirSyncError"
    by code_simp
  note t = descriptor_written_in_place [THEN conjunct1]
  note t' = descriptor_written_in_place [THEN conjunct2]
  have c1: "files (fst (generateIconTheme (example_host_write WriteFailsAtOpen [''/w/a.png'']) ?g ?w))
      (iconThemePath ?g) = Some ''{}''"
    using t [of "example_host_write WriteFailsAtOpen [''/w/a.png'']" ?g ?w _ ?w,
        THEN conjunct2, THEN conjunct2, THEN mp, OF e, THEN conjunct2, THEN conjunct2]
      o n old by simp
  have c2: "snd (generateIconTheme (example_host_write (WriteFailsAfter 5) [''/w/a.png'']) ?g ?w)
      = Inl WriteFileSyncError"
    using t [of "example_host_write (WriteFailsAfter 5) [''/w/a.png'']" ?g ?w _ ?w 5,
        THEN conjunct2, THEN conjunct2, THEN mp, OF e, THEN conjunct2, THEN conjunct1]
      o by simp
  have c3: "files (fst (generateIconTheme_part000 (example_host_write WriteCompletes [''/w/a.png'']) ?g ?w))
      (iconThemePath ?g) =
     Some (JSON_stringify (json_of_icon_maps
       (fst (assemble (example_host_write WriteCompletes [''/w/a.png'']) ?g ?w))))"
    using t' [of "example_host_write WriteCompletes [''/w/a.png'']" ?g ?w _ ?w,
        THEN conjunct2, THEN conjunct2, THEN mp, OF e, THEN conjunct1]
      o by simp
  have c4: "fst (generateIconTheme ((example_host [])\<lparr>mkdirSync_throws := True\<rparr>) ?g empty_world)
     = empty_world"
    using t [of "(example_host [])\<lparr>mkdirSync_throws := True\<rparr>" ?g empty_world, THEN conjunct1] m
    by simp
  from c1 c2 c3 c4 show ?thesis by (intro conjI)
qed

text \<open>
  C2 as stated fails: on a disk that holds an earlier descriptor, a cycle whose write of
  the descriptor fails after five bytes ends with the error and leaves those five bytes
  of the new text, an opening brace, a line feed, two spaces and a double quote, where
  the earlier descriptor was.
\<close>

theorem failed_write_truncates_descriptor:
  "files old_descriptor_world (iconThemePath example_globals) = Some ''{}'' \<and>
   snd (generateIconTheme (example_host_write (WriteFailsAfter 5) [''/w/a.png''])
          example_globals old_descriptor_world) = Inl WriteFileSyncError \<and>
   files (fst (generateIconTheme (example_host_write (WriteFailsAfter 5) [''/w/a.png''])
          example_globals old_descriptor_world)) (iconThemePath example_globals) =
     Some [CHR ''{'', CHR 0x0A, CHR '' '', CHR '' '', CHR 0x22] \<and>
   snd (generateIconTheme_part000 (example_host_write (WriteFailsAfter 5) [''/w/a.png''])
          example_globals old_descriptor_world) = Inl WriteFileSyncError \<and>
   files (fst (generateIconTheme_part000 (example_host_write (WriteFailsAfter 5) [''/w/a.png''])
          example_globals old_descriptor_world)) (iconThemePath example_globals) =
     Some [CHR ''{'', CHR 0x0A, CHR '' '', CHR '' '', CHR 0x22]"
  by code_simp

text \<open>
  C5. Every notification (an event whose handler calls \<open>scheduleIconRegeneration\<close>)
  leaves exactly one timeout pending, due 500 ms after it: the timeout pending before is
  cancelled. From a state with no timeout pending, for notifications at times in
  ascending order and once the clock has passed the last one by 500 ms: when each
  notification comes less than 500 ms after the one before, \<open>generateIconTheme\<close> has
  been called once, 500 ms after the last notification; when each comes more than 500 ms
  after the one before, it has been called once per notification, 500 ms after each; and
  in every case each call is 500 ms after some notification, with no notification
  between that one and the call.
\<close>

theorem debounce_trailing_edge:
  "(tidy s \<and> now s \<le> t \<and> notifies s e \<longrightarrow>
      map snd (timers (handle e (advance t s))) = [t + 500] \<and> tidy (handle e (advance t s))) \<and>
   (tidy s \<and> timers s = [] \<and> evs \<noteq> [] \<and> list_all (\<lambda>te. notifies s (snd te)) evs \<and>
    sorted (now s # map fst evs) \<and> last (map fst evs) + 500 \<le> T \<longrightarrow>
      (successively (\<lambda>a b. b < a + 500) (map fst evs) \<longrightarrow>
         started (advance T (run s evs)) = started s @ [last (map fst evs) + 500]) \<and>
      (successively (\<lambda>a b. a + 500 < b) (map fst evs) \<longrightarrow>
         started (advance T (run s evs)) = started s @ map (\<lambda>te. fst te + 500) evs) \<and>
      (\<forall>x\<in>set (drop (length (started s)) (started (advance T (run s evs)))).
         \<exists>u\<in>set (map fst evs). x = u + 500 \<and> (\<forall>t'\<in>set (map fst evs). t' \<le> u \<or> x \<le> t')))"
proof (intro conjI impI ballI)
  assume a: "tidy s \<and> now s \<le> t \<and> notifies s e"
  then have "tidy s" "now s \<le> t" "notifies s e" by simp_all
  from notification_step(5,1) [OF this]
  show "map snd (timers (handle e (advance t s))) = [t + 500]" "tidy (handle e (advance t s))" .
next
  assume a: "tidy s \<and> timers s = [] \<and> evs \<noteq> [] \<and> list_all (\<lambda>te. notifies s (snd te)) evs \<and>
    sorted (now s # map fst evs) \<and> last (map fst evs) + 500 \<le> T"
  then have h: "tidy s" "timers s = []" "evs \<noteq> []" "list_all (\<lambda>te. notifies s (snd te)) evs"
    "sorted (now s # map fst evs)" "last (map fst evs) + 500 \<le> T"
    by simp_all
  note q = run_then_quiet [OF h]
  obtain te rest where evs: "evs = te # rest" using h(3) by (cases evs) auto
  have dn: "debounce None (map fst evs) = debounce (Some (fst te + 500)) (map fst rest)"
    by (simp add: evs)
  {
    assume "successively (\<lambda>a b. b < a + 500) (map fst evs)"
    then have "debounce (Some (fst te + 500)) (map fst rest) = ([], Some (last (map fst evs) + 500))"
      using debounce_burst [of "fst te" "map fst rest"] by (simp add: evs)
    then show "started (advance T (run s evs)) = started s @ [last (map fst evs) + 500]"
      by (simp add: q(1) dn)
  }
  {
    assume "successively (\<lambda>a b. a + 500 < b) (map fst evs)"
    then have "debounce (Some (fst te + 500)) (map fst rest) =
        (map (\<lambda>x. x + 500) (butlast (map fst evs)), Some (last (map fst evs) + 500))"
      using debounce_spaced [of "fst te" "map fst rest"] by (simp add: evs)
    then have "started (advance T (run s evs)) =
        started s @ map (\<lambda>x. x + 500) (butlast (map fst evs) @ [last (map fst evs)])"
      by (simp add: q(1) dn)
    also have "butlast (map fst evs) @ [last (map fst evs)] = map fst evs"
      using h(3) by simp
    finally show "started (advance T (run s evs)) = started s @ map (\<lambda>te. fst te + 500) evs"
      by (simp add: comp_def)
  }
  {
    fix x
    assume "x \<in> set (drop (length (started s)) (started (advance T (run s evs))))"
    then have "x \<in> set (fst (debounce (Some (fst te + 500)) (map fst rest)))
                 \<union> set_option (snd (debounce (Some (fst te + 500)) (map fst rest)))"
      using q(2) by (auto simp: q(1) dn)
    moreover have "sorted (fst te # map fst rest)"
      using h(5) by (simp add: evs)
    ultimately have "\<exists>u\<in>set (fst te # map fst rest). x = u + 500 \<and>
        (\<forall>t'\<in>set (fst te # map fst rest). t' \<le> u \<or> x \<le> t')"
      by (rule debounce_quiet [rotated])
    then show "\<exists>u\<in>set (map fst evs). x = u + 500 \<and> (\<forall>t'\<in>set (map fst evs). t' \<le> u \<or> x \<le> t')"
      by (simp add: evs)
  }
qed

text \<open>
  The theorem after activation with the default settings at time 0: three notifications
  at 100, 300 and 700 ms give one call at 1200 ms; three at 100, 700 and 1300 ms give
  the calls at 600, 1200 and 1800 ms.
\<close>

theorem debounce_trailing_edge_witness:
  "started (advance 2000 (run (register_handlers literal_glob example_config 0)
      [(100, WorkspaceFoldersChanged), (300, FileCreated ''/w/a.png''),
       (700, ConfigurationChanged (Some example_config))])) = [1200] \<and>
   started (advance 1800 (run (register_handlers literal_glob example_config 0)
      [(100, WorkspaceFoldersChanged), (700, FileChanged ''/w/a.png''),
       (1300, FileDeleted ''/w/a.png'')])) = [600, 1200, 1800] \<and>
   map snd (timers (handle WorkspaceFoldersChanged (advance 100 (register_handlers literal_glob example_config 0))))
     = [600]"
proof -
  let ?s = "register_handlers literal_glob example_config 0"
  let ?a = "[(100::nat, WorkspaceFoldersChanged), (300, FileCreated ''/w/a.png''),
       (700, ConfigurationChanged (Some example_config))]"
  let ?b = "[(100::nat, WorkspaceFoldersChanged), (700, FileChanged ''/w/a.png''),
       (1300, FileDeleted ''/w/a.png'')]"
  have w: "watcher_fires ?s ''/w/a.png''"
    by code_simp
  have na: "list_all (\<lambda>te. notifies ?s (snd te)) ?a"
    and nb: "list_all (\<lambda>te. notifies ?s (snd te)) ?b"
    by (simp_all add: notifies_def w)
  have ha: "tidy ?s \<and> timers ?s = [] \<and> ?a \<noteq> [] \<and> list_all (\<lambda>te. notifies ?s (snd te)) ?a \<and>
    sorted (now ?s # map fst ?a) \<and> last (map fst ?a) + 500 \<le> (2000::nat)"
    using na by (simp add: register_handlers_tidy)
  have hb: "tidy ?s \<and> timers ?s = [] \<and> ?b \<noteq> [] \<and> list_all (\<lambda>te. notifies ?s (snd te)) ?b \<and>
    sorted (now ?s # map fst ?b) \<and> last (map fst ?b) + 500 \<le> (1800::nat)"
    using nb by (simp add: register_handlers_tidy)
  have sa: "successively (\<lambda>a b. b < a + 500) (map fst ?a)"
    and sb: "successively (\<lambda>a b. a + 500 < b) (map fst ?b)"
    by simp_all
  have hc: "tidy ?s \<and> now ?s \<le> 100 \<and> notifies ?s WorkspaceFoldersChanged"
    by (simp add: register_handlers_tidy notifies_def)
  from debounce_trailing_edge [of ?s _ _ ?a 2000, THEN conjunct2, THEN mp, OF ha,
      THEN conjunct1, THEN mp, OF sa]
  have c1: "started (advance 2000 (run ?s ?a)) = [1200]"
    by (simp add: register_handlers_tidy)
  from debounce_trailing_edge [of ?s _ _ ?b 1800, THEN conjunct2, THEN mp, OF hb,
      THEN conjunct2, THEN conjunct1, THEN mp, OF sb]
  have c2: "started (advance 1800 (run ?s ?b)) = [600, 1200, 1800]"
    by (simp add: register_handlers_tidy)
  from debounce_trailing_edge [of ?s 100 WorkspaceFoldersChanged, THEN conjunct1, THEN mp, OF hc,
      THEN conjunct1]
  have c3: "map snd (timers (handle WorkspaceFoldersChanged (advance 100 ?s))) = [600]"
    by simp
  from c1 c2 c3 show ?thesis by (intro conjI)
qed

text \<open>
  C3 (as amended). Regeneration is not single-flight. The refresh command calls
  \<open>generateIconTheme\<close> at once, whatever the number of cycles in flight, and so does
  the debounce timeout when it fires; \<open>n\<close> refresh commands in a row leave \<open>n\<close> more
  cycles in flight. The completion of a cycle starts no cycle and sets no timeout:
  nothing records that a follow-up is owed.
\<close>

theorem triggers_start_cycles_at_once:
  "in_flight (handle RefreshCommand s) = in_flight s + 1 \<and>
   started (handle RefreshCommand s) = started s @ [now s] \<and>
   (timers s = [(r, d)] \<and> d \<le> t \<longrightarrow>
      in_flight (advance t s) = in_flight s + 1 \<and>
      started (advance t s) = started s @ [max (now s) d]) \<and>
   started (handle CycleCompleted s) = started s \<and>
   timers (handle CycleCompleted s) = timers s \<and>
   (timers s = [] \<longrightarrow>
      in_flight (run s (map (\<lambda>t. (t, RefreshCommand)) ts)) = in_flight s + length ts \<and>
      length (started (run s (map (\<lambda>t. (t, RefreshCommand)) ts))) = length (started s) + length ts)"
proof (intro conjI impI)
  show "in_flight (handle RefreshCommand s) = in_flight s + 1"
    and "started (handle RefreshCommand s) = started s @ [now s]"
    by (simp_all add: call_generateIconTheme_fields)
  show "started (handle CycleCompleted s) = started s"
    and "timers (handle CycleCompleted s) = timers s"
    by simp_all
next
  assume "timers s = [(r, d)] \<and> d \<le> t"
  then have a: "timers s = [(r, d)]" "d \<le> t" by simp_all
  show "in_flight (advance t s) = in_flight s + 1"
    and "started (advance t s) = started s @ [max (now s) d]"
    by (simp_all add: advance_due [OF a])
next
  assume a: "timers s = []"
  from run_refresh_commands [OF a, of ts]
  show "in_flight (run s (map (\<lambda>t. (t, RefreshCommand)) ts)) = in_flight s + length ts"
    and "length (started (run s (map (\<lambda>t. (t, RefreshCommand)) ts))) = length (started s) + length ts"
    by simp_all
qed


text \<open>
  The theorem after activation at time 0: three refresh commands in a row, and a
  timeout that fires while the cycle of a refresh command is in flight.
\<close>

theorem triggers_start_cycles_at_once_witness:
  "in_flight (run (register_handlers literal_glob example_config 0)
      (map (\<lambda>t. (t, RefreshCommand)) [10, 20, 30])) = 3 \<and>
   in_flight (advance 600
      (handle WorkspaceFoldersChanged (handle RefreshCommand (register_handlers literal_glob example_config 0)))) = 2"
proof -
  let ?s = "register_handlers literal_glob example_config 0"
  let ?u = "handle WorkspaceFoldersChanged (handle RefreshCommand ?s)"
  have a: "timers ?s = []" by (rule register_handlers_tidy)
  have b: "timers ?u = [(0, 500)] \<and> (500::nat) \<le> 600"
    by (simp add: scheduleIconRegeneration_eq call_generateIconTheme_def register_handlers_def
        activateIconTheme_def Let_def isAutoActivateEnabled_def example_config_def)
  have i: "in_flight ?u = 1"
    by (simp add: scheduleIconRegeneration_eq call_generateIconTheme_def register_handlers_def
        activateIconTheme_def Let_def isAutoActivateEnabled_def example_config_def)
  from triggers_start_cycles_at_once [of ?s _ _ _ "[10, 20, 30]", THEN conjunct2, THEN conjunct2,
      THEN conjunct2, THEN conjunct2, THEN conjunct2, THEN mp, OF a, THEN conjunct1]
  have c1: "in_flight (run ?s (map (\<lambda>t. (t, RefreshCommand)) [10, 20, 30])) = 3"
    by (simp add: register_handlers_tidy)
  note c2' = triggers_start_cycles_at_once [of ?u 0 500 600, THEN conjunct2, THEN conjunct2,
      THEN conjunct1, THEN mp, OF b, THEN conjunct1]
  have c2: "in_flight (advance 600 ?u) = 2"
    by (simp only: c2' i one_add_one)
  from c1 c2 show ?thesis by (rule conjI)
qed

text \<open>
  C3 as stated fails: after activation, two refresh commands 10 ms apart leave two cycles
  in flight at once; a timeout that fires while the cycle of a refresh command is in
  flight starts a second one; and after two overlapping cycles have completed no further
  cycle is started.
\<close>

theorem two_cycles_in_flight:
  "in_flight (run (register_handlers literal_glob example_config 0)
      [(10, RefreshCommand), (20, RefreshCommand)]) = 2 \<and>
   in_flight (advance 520 (run (register_handlers literal_glob example_config 0)
      [(10, RefreshCommand), (20, WorkspaceFoldersChanged)])) = 2 \<and>
   started (advance 5000 (run (register_handlers literal_glob example_config 0)
      [(10, RefreshCommand), (20, RefreshCommand), (30, CycleCompleted), (40, CycleCompleted)]))
     = [10, 20]"
  by (simp add: register_handlers_def advance_def call_generateIconTheme_def
      scheduleIconRegeneration_eq activateIconTheme_def Let_def isAutoActivateEnabled_def
      example_config_def)




end
